theory Spec2Isabelle
  imports Complex_Main
begin

section \<open>Barndoor tracker controller v1.4: data model\<close>

text \<open>
  The sketch \<^verbatim>\<open>Barndoor_controller_v1.4.ino\<close> runs on an AVR Arduino: \<^verbatim>\<open>int\<close> has 16 bits,
  \<^verbatim>\<open>long\<close> has 32 bits.  Integer variables are modelled as \<open>int\<close>.  The arithmetic of
  \<^verbatim>\<open>setup()\<close> stays inside the machine ranges (lemma \<open>setup_config_in_range\<close>); the only
  other arithmetic is \<^verbatim>\<open>++\<close> on a signed variable, whose overflow is undefined behaviour in
  C++ and is the result \<open>Signed_Overflow\<close> of the model.  A polling loop that has used up
  every reading it was given without leaving is the result \<open>Blocked\<close>.
\<close>

datatype level = LOW | HIGH

datatype pin_mode = INPUT_PULLUP | OUTPUT

datatype fault = Signed_Overflow | Blocked

text \<open>What the program does to the outside world, in the order it does it.\<close>

datatype io =
    Serial_begin int
  | Serial_print string
  | Serial_println string
  | Serial_print_num int
  | Serial_println_num int
  | Pin_mode int pin_mode
  | Digital_read int level
  | Stepper_begin int int
  | Stepper_move int
  | Delay_ms int
  | Delay_us int

text \<open>
  The global variables of the sketch, the three \<^verbatim>\<open>static\<close> variables of \<^verbatim>\<open>Timer_1\<close>, the period
  given to \<^verbatim>\<open>Timer1.initialize\<close>, the level last written to each pin and the trace of
  input and output.
\<close>

record state =
  Run_Tracker :: bool
  Home_Tracker :: bool
  Button_Pressed :: bool
  Time :: int
  Button_Timer :: int
  Steps :: int
  Steps_mm :: int
  Step_Limit :: int
  Rotation_Step_Interval :: int
  Delay_1 :: int
  Delay_2 :: int
  Button_Timer_temp :: int
  Time_temp :: int
  Toggle_Flag :: bool
  Timer1_period_us :: int
  Timer1_attached :: bool
  pin_out :: "int \<Rightarrow> level"
  trace :: "io list"

definition INT_MAX :: int where
  "INT_MAX = 32767"

definition LONG_MAX :: int where
  "LONG_MAX = 2147483647"

subsection \<open>Configuration\<close>

definition Stepper_Enable :: int where
  "Stepper_Enable = 8"

definition Stepper_Speed :: int where
  "Stepper_Speed = 14"

definition HomeStart_Pin :: int where
  "HomeStart_Pin = 9"

definition Status_Led_Pin :: int where
  "Status_Led_Pin = 17"

definition Button_Pin :: int where
  "Button_Pin = 12"

definition Thread_Pitch_mm :: real where
  "Thread_Pitch_mm = 1.25"

definition Hinge_Distance :: int where
  "Hinge_Distance = 260"

definition Threaded_UpperRod_Length :: int where
  "Threaded_UpperRod_Length = 100"

text \<open>The macro \<^verbatim>\<open>PI\<close> of \<^verbatim>\<open>Arduino.h\<close>, a decimal literal.\<close>

definition PI :: real where
  "PI = 3.1415926535897932384626433832795"

subsection \<open>Primitive effects\<close>

definition emit :: "io \<Rightarrow> state \<Rightarrow> state" where
  "emit e s = s\<lparr>trace := trace s @ [e]\<rparr>"

definition digitalWrite :: "int \<Rightarrow> level \<Rightarrow> state \<Rightarrow> state" where
  "digitalWrite p v s = s\<lparr>pin_out := (pin_out s)(p := v)\<rparr>"

text \<open>\<^verbatim>\<open>digitalRead\<close> returns the level the environment supplies; the read is logged.\<close>

definition digitalRead :: "int \<Rightarrow> level \<Rightarrow> state \<Rightarrow> state" where
  "digitalRead p v s = emit (Digital_read p v) s"

definition delay :: "int \<Rightarrow> state \<Rightarrow> state" where
  "delay ms s = emit (Delay_ms ms) s"

definition delayMicroseconds :: "int \<Rightarrow> state \<Rightarrow> state" where
  "delayMicroseconds us s = emit (Delay_us us) s"

definition stepper_move :: "int \<Rightarrow> state \<Rightarrow> state" where
  "stepper_move n s = emit (Stepper_move n) s"

definition bind_f :: "fault + 'a \<Rightarrow> ('a \<Rightarrow> fault + 'b) \<Rightarrow> fault + 'b" where
  "bind_f m f = (case m of Inl e \<Rightarrow> Inl e | Inr x \<Rightarrow> f x)"

text \<open>The conversion of a \<^verbatim>\<open>double\<close> to \<^verbatim>\<open>int\<close> drops the fraction (towards zero).\<close>

definition double_to_int :: "real \<Rightarrow> int" where
  "double_to_int r = (if 0 \<le> r then \<lfloor>r\<rfloor> else \<lceil>r\<rceil>)"

section \<open>Initialize\<close>

text \<open>
  The state before \<^verbatim>\<open>setup\<close> runs: variables of static storage are zero, \<^verbatim>\<open>Button_Timer\<close>
  is initialised to 0 by its declaration.
\<close>

definition power_on :: state where
  "power_on = \<lparr>Run_Tracker = False, Home_Tracker = False, Button_Pressed = False,
     Time = 0, Button_Timer = 0, Steps = 0, Steps_mm = 0, Step_Limit = 0,
     Rotation_Step_Interval = 0, Delay_1 = 0, Delay_2 = 0,
     Button_Timer_temp = 0, Time_temp = 0, Toggle_Flag = False,
     Timer1_period_us = 0, Timer1_attached = False,
     pin_out = (\<lambda>p. LOW), trace = []\<rparr>"

text \<open>
  The expression assigned to \<^verbatim>\<open>Rotation_Step_Interval\<close> (lines 121 and 127); \<open>base\<close> is
  \<^verbatim>\<open>0.3/16\<close> or \<^verbatim>\<open>0.15/16\<close>.  It is evaluated here in exact arithmetic; the board rounds
  every operation to a binary floating-point number.
\<close>

definition interval_expr :: "real \<Rightarrow> real \<Rightarrow> real" where
  "interval_expr p base =
     (base / (real_of_int Hinge_Distance / ((Thread_Pitch_mm * 1436) / (2 * p)))) * 1000000"

text \<open>Lines 101 to 114: serial port, timer, pins, driver.\<close>

definition setup_io :: "state \<Rightarrow> state" where
  "setup_io s =
     emit (Stepper_begin 1 16)
       (digitalWrite Stepper_Speed LOW
         (emit (Pin_mode Stepper_Speed OUTPUT)
           (digitalWrite Stepper_Enable HIGH
             (emit (Pin_mode Button_Pin INPUT_PULLUP)
               (emit (Pin_mode Status_Led_Pin OUTPUT)
                 (emit (Pin_mode HomeStart_Pin INPUT_PULLUP)
                   ((emit (Serial_println (''Barndoor tracker v1.4 by Bj'' @
                              [char_of (195::nat), char_of (182::nat)] @ ''rn Pasteuning''))
                      (emit (Serial_begin 115200) s))
                    \<lparr>Timer1_period_us := 100000, Timer1_attached := True\<rparr>)))))))"

text \<open>Lines 117 to 128: the two presets; any other \<^verbatim>\<open>MOTOR_STEPS\<close> assigns nothing.\<close>

definition setup_preset :: "int \<Rightarrow> state \<Rightarrow> state" where
  "setup_preset MOTOR_STEPS s =
     (if MOTOR_STEPS = 200 then
        s\<lparr>Steps_mm := 2560,
          Rotation_Step_Interval := double_to_int (interval_expr PI (0.3 / 16))\<rparr>
      else if MOTOR_STEPS = 400 then
        s\<lparr>Steps_mm := 5120,
          Rotation_Step_Interval := double_to_int (interval_expr PI (0.15 / 16))\<rparr>
      else s)"

text \<open>Lines 130 to 140: the split that keeps \<^verbatim>\<open>delayMicroseconds\<close> from overflowing.\<close>

definition setup_delays :: "state \<Rightarrow> state" where
  "setup_delays s =
     (if Rotation_Step_Interval s > 16000 then
        s\<lparr>Delay_1 := 16000, Delay_2 := Rotation_Step_Interval s - 16000\<rparr>
      else
        s\<lparr>Delay_1 := Rotation_Step_Interval s, Delay_2 := 0\<rparr>)"

text \<open>Lines 144 to 150.\<close>

definition setup_vars :: "state \<Rightarrow> state" where
  "setup_vars s =
     s\<lparr>Step_Limit := Steps_mm s * (Threaded_UpperRod_Length - 10),
       Home_Tracker := True, Run_Tracker := False, Time := 0, Steps := 0,
       Button_Pressed := False\<rparr>"

text \<open>
  Lines 152 to 164: with the button held at power-up the sketch waits for its release and
  then steps with \<^verbatim>\<open>stepper.move(-1)\<close> until the home switch reads \<^verbatim>\<open>LOW\<close>.  Each loop
  takes the readings of its pin from a list.
\<close>

fun wait_release :: "level list \<Rightarrow> state \<Rightarrow> fault + state" where
  "wait_release [] s = Inl Blocked"
| "wait_release (b # bs) s =
     (if b = LOW then wait_release bs (digitalRead Button_Pin b s)
      else Inr (digitalRead Button_Pin b s))"

fun jog_loop :: "level list \<Rightarrow> state \<Rightarrow> fault + state" where
  "jog_loop [] s = Inl Blocked"
| "jog_loop (h # hs) s =
     (if h = HIGH then jog_loop hs (delay 1 (stepper_move (- 1) (digitalRead HomeStart_Pin h s)))
      else Inr (digitalRead HomeStart_Pin h s))"

definition setup_jog :: "level \<Rightarrow> level list \<Rightarrow> level list \<Rightarrow> state \<Rightarrow> fault + state" where
  "setup_jog b0 bs hs s =
     (if b0 = LOW then
        bind_f (wait_release bs (digitalRead Button_Pin b0 s))
          (\<lambda>s1. bind_f (jog_loop hs (digitalWrite Stepper_Enable LOW (digitalWrite Stepper_Speed LOW s1)))
            (\<lambda>s2. Inr (digitalWrite Stepper_Enable HIGH s2)))
      else Inr (digitalRead Button_Pin b0 s))"

text \<open>Lines 169 to 178.\<close>

definition setup_debug :: "state \<Rightarrow> state" where
  "setup_debug s =
     emit (Serial_println ''uS'')
       (emit (Serial_print_num (Delay_2 s))
         (emit (Serial_print ''uS + '')
           (emit (Serial_print_num (Delay_1 s))
             (emit (Serial_println ''uS'')
               (emit (Serial_print_num (Rotation_Step_Interval s))
                 (emit (Serial_print ''Rotation speed = '')
                   (emit (Serial_println_num (Step_Limit s))
                     (emit (Serial_print ''Step Limit = '') s))))))))"

text \<open>The part of \<^verbatim>\<open>setup\<close> that reads no input: lines 101 to 150.\<close>

definition setup_config :: "int \<Rightarrow> state" where
  "setup_config MOTOR_STEPS = setup_vars (setup_delays (setup_preset MOTOR_STEPS (setup_io power_on)))"

text \<open>
  \<^verbatim>\<open>setup()\<close>, for a value of the macro \<^verbatim>\<open>MOTOR_STEPS\<close>, the first reading of the button, the
  readings of the button while the sketch waits for its release and the readings of the
  home switch.
\<close>

definition setup_main :: "int \<Rightarrow> level \<Rightarrow> level list \<Rightarrow> level list \<Rightarrow> fault + state" where
  "setup_main MOTOR_STEPS b0 bs hs =
     bind_f (setup_jog b0 bs hs (setup_config MOTOR_STEPS)) (\<lambda>s. Inr (setup_debug s))"

section \<open>Button handling\<close>

text \<open>Lines 200 to 209: a press is latched once, with a settle delay.\<close>

definition scan_press :: "level \<Rightarrow> state \<Rightarrow> state" where
  "scan_press b1 s =
     (let s1 = digitalRead Button_Pin b1 s in
      if b1 = LOW then
        (if Button_Pressed s1 = False then
           delay 100 (s1\<lparr>Button_Pressed := True, Button_Timer := 0\<rparr>)
         else s1)
      else s1)"

text \<open>
  Lines 211 to 237: the release of a latched press.  The second \<^verbatim>\<open>digitalRead\<close> is only
  evaluated when \<^verbatim>\<open>Button_Pressed\<close> is true.
\<close>

definition scan_release :: "level \<Rightarrow> state \<Rightarrow> state" where
  "scan_release b2 s =
     (if Button_Pressed s = True then
        (let s1 = digitalRead Button_Pin b2 s in
         if b2 = HIGH then
           (if Button_Timer s1 < 1 \<and> Run_Tracker s1 = False then
              (emit (Serial_println ''Tracking Started'')
                 (digitalWrite Stepper_Enable LOW (delay 100 s1)))
              \<lparr>Run_Tracker := True, Time := 0, Button_Pressed := False\<rparr>
            else if Button_Timer s1 < 1 \<and> Run_Tracker s1 = True then
              digitalWrite Status_Led_Pin LOW
                ((emit (Serial_println_num (Steps s1))
                   (emit (Serial_print ''Actual step position: '')
                     (emit (Serial_println ''Tracking Stopped'')
                       (digitalWrite Stepper_Enable HIGH
                         ((delay 100 s1)\<lparr>Run_Tracker := False\<rparr>)))))
                 \<lparr>Button_Pressed := False\<rparr>)
            else s1\<lparr>Button_Pressed := False\<rparr>)
         else s1)
      else s)"

text \<open>Lines 238 to 245: the long press.\<close>

definition scan_hold :: "state \<Rightarrow> state" where
  "scan_hold s =
     (if Button_Timer s > 2 then
        (delay 100 s)\<lparr>Run_Tracker := False, Home_Tracker := True,
          Button_Pressed := False, Button_Timer := 0\<rparr>
      else s)"

text \<open>\<^verbatim>\<open>Button_Scan()\<close>, for the levels its two reads of the button return.\<close>

definition Button_Scan :: "level \<Rightarrow> level \<Rightarrow> state \<Rightarrow> state" where
  "Button_Scan b1 b2 s = scan_hold (scan_release b2 (scan_press b1 s))"

section \<open>Timer interrupt\<close>

text \<open>Lines 257 to 265.\<close>

definition tick_button :: "state \<Rightarrow> fault + state" where
  "tick_button s =
     (if Button_Pressed s = True then
        (if Button_Timer_temp s > 9 then
           (if Button_Timer s = INT_MAX then Inl Signed_Overflow
            else Inr (s\<lparr>Button_Timer_temp := 0 + 1, Button_Timer := Button_Timer s + 1\<rparr>))
         else Inr (s\<lparr>Button_Timer_temp := Button_Timer_temp s + 1\<rparr>))
      else Inr s)"

text \<open>Lines 267 to 275.\<close>

definition tick_time :: "state \<Rightarrow> fault + state" where
  "tick_time s =
     (if Run_Tracker s = True then
        (if Time_temp s > 9 then
           (if Time s = INT_MAX then Inl Signed_Overflow
            else Inr (s\<lparr>Time_temp := 0 + 1, Time := Time s + 1\<rparr>))
         else Inr (s\<lparr>Time_temp := Time_temp s + 1\<rparr>))
      else Inr s)"

text \<open>Lines 278 to 290: the status led blinks while tracking.\<close>

definition tick_led :: "state \<Rightarrow> state" where
  "tick_led s =
     (if Run_Tracker s = True then
        (if Toggle_Flag s then
           (digitalWrite Status_Led_Pin HIGH s)\<lparr>Toggle_Flag := \<not> Toggle_Flag s\<rparr>
         else
           (digitalWrite Status_Led_Pin LOW s)\<lparr>Toggle_Flag := \<not> Toggle_Flag s\<rparr>)
      else s)"

text \<open>\<^verbatim>\<open>Timer_1()\<close>, the handler attached to the timer.\<close>

definition Timer_1 :: "state \<Rightarrow> fault + state" where
  "Timer_1 s = bind_f (tick_button s) (\<lambda>s1. bind_f (tick_time s1) (\<lambda>s2. Inr (tick_led s2)))"

text \<open>\<open>n\<close> consecutive runs of the handler.\<close>

fun Timer_ticks :: "nat \<Rightarrow> state \<Rightarrow> fault + state" where
  "Timer_ticks 0 s = Inr s"
| "Timer_ticks (Suc n) s = bind_f (Timer_1 s) (Timer_ticks n)"

section \<open>Homing\<close>

text \<open>
  Lines 308 to 312: the loop takes the readings of the home switch from a list and leaves
  at the first \<^verbatim>\<open>LOW\<close>.
\<close>

fun home_loop :: "level list \<Rightarrow> state \<Rightarrow> fault + state" where
  "home_loop [] s = Inl Blocked"
| "home_loop (h # hs) s =
     (if h = HIGH then home_loop hs (delay 1 (stepper_move 1 (digitalRead HomeStart_Pin h s)))
      else Inr (digitalRead HomeStart_Pin h s))"

text \<open>\<^verbatim>\<open>Homeing()\<close>.\<close>

definition Homeing :: "level list \<Rightarrow> state \<Rightarrow> fault + state" where
  "Homeing hs s =
     (if Home_Tracker s = True then
        bind_f
          (home_loop hs
            (digitalWrite Stepper_Enable LOW
              (digitalWrite Status_Led_Pin HIGH
                ((emit (Serial_println ''Homing!'') (digitalWrite Stepper_Speed LOW s))
                 \<lparr>Run_Tracker := False\<rparr>))))
          (\<lambda>s1. Inr
            (digitalWrite Status_Led_Pin LOW
              (digitalWrite Stepper_Enable HIGH
                ((emit (Serial_println ''Starting point reached'') s1)
                 \<lparr>Steps := 0, Home_Tracker := False\<rparr>))))
      else Inr s)"

section \<open>Tracking\<close>

text \<open>The body of the travel-limit check, lines 340 to 345.\<close>

definition limit_stop :: "state \<Rightarrow> state" where
  "limit_stop s =
     digitalWrite Status_Led_Pin LOW
       (emit (Serial_println_num (Steps s))
         (emit (Serial_print ''Actual step position: '')
           (emit (Serial_println ''Tracking Stopped'')
             (digitalWrite Stepper_Enable HIGH (s\<lparr>Run_Tracker := False\<rparr>)))))"

text \<open>\<^verbatim>\<open>Tracking()\<close>.\<close>

definition Tracking :: "state \<Rightarrow> fault + state" where
  "Tracking s =
     (if Run_Tracker s = True then
        (let s1 = stepper_move (- 1) (digitalWrite Stepper_Speed HIGH s) in
         if Steps s1 = LONG_MAX then Inl Signed_Overflow
         else
           (let s2 = delayMicroseconds (Delay_2 s1)
                       (delayMicroseconds (Delay_1 s1) (s1\<lparr>Steps := Steps s1 + 1\<rparr>)) in
            if Steps s2 > Step_Limit s2 then Inr (limit_stop s2) else Inr s2))
      else Inr s)"

section \<open>Main loop and interrupt\<close>

text \<open>One pass of \<^verbatim>\<open>loop()\<close>, for the readings of the button and of the home switch.\<close>

definition loop :: "level \<Rightarrow> level \<Rightarrow> level list \<Rightarrow> state \<Rightarrow> fault + state" where
  "loop b1 b2 hs s = bind_f (Homeing hs (Button_Scan b1 b2 s)) Tracking"

text \<open>
  The handler \<^verbatim>\<open>Timer_1\<close> interrupts the main program.  The model lets it run between two
  calls of \<^verbatim>\<open>loop()\<close>'s body, not inside one: a configuration is the call the main program
  makes next together with the state, and an event is one run of the handler or the next
  call, with the readings that call may take.  The handler writes \<^verbatim>\<open>Button_Timer\<close>, \<^verbatim>\<open>Time\<close>,
  its three static variables and the status led, and nothing else (lemma \<open>Timer_1_frame\<close>);
  of these the main program reads \<^verbatim>\<open>Button_Timer\<close> only, in \<^verbatim>\<open>Button_Scan\<close>.  A run of the
  handler inside a call is not followed by the model.
\<close>

datatype pc = At_Button_Scan | At_Homeing | At_Tracking

datatype event = Timer_tick | Main_call level level "level list"

fun step :: "event \<Rightarrow> pc \<times> state \<Rightarrow> fault + pc \<times> state" where
  "step Timer_tick (p, s) = bind_f (Timer_1 s) (\<lambda>s'. Inr (p, s'))"
| "step (Main_call b1 b2 hs) (At_Button_Scan, s) = Inr (At_Homeing, Button_Scan b1 b2 s)"
| "step (Main_call b1 b2 hs) (At_Homeing, s) = bind_f (Homeing hs s) (\<lambda>s'. Inr (At_Tracking, s'))"
| "step (Main_call b1 b2 hs) (At_Tracking, s) = bind_f (Tracking s) (\<lambda>s'. Inr (At_Button_Scan, s'))"

fun exec :: "event list \<Rightarrow> pc \<times> state \<Rightarrow> fault + pc \<times> state" where
  "exec [] c = Inr c"
| "exec (e # es) c = bind_f (step e c) (exec es)"

text \<open>
  The configurations the sketch can be in after \<^verbatim>\<open>setup()\<close> has returned, for a value of
  \<^verbatim>\<open>MOTOR_STEPS\<close>.
\<close>

inductive reachable :: "int \<Rightarrow> pc \<times> state \<Rightarrow> bool" for MOTOR_STEPS :: int where
  reachable_setup: "setup_main MOTOR_STEPS b0 bs hs = Inr s \<Longrightarrow> reachable MOTOR_STEPS (At_Button_Scan, s)"
| reachable_step: "reachable MOTOR_STEPS c \<Longrightarrow> step e c = Inr c' \<Longrightarrow> reachable MOTOR_STEPS c'"

section \<open>Auxiliary notions for the proofs\<close>

text \<open>The program variables of a state, without the pins and the trace.\<close>

definition vars_of :: "state \<Rightarrow> state" where
  "vars_of s = s\<lparr>pin_out := (\<lambda>p. LOW), trace := []\<rparr>"

fun moves :: "io list \<Rightarrow> int list" where
  "moves [] = []"
| "moves (Stepper_move n # es) = n # moves es"
| "moves (e # es) = moves es"

definition home_steps :: "level list \<Rightarrow> io list" where
  "home_steps hs = concat (map (\<lambda>h. [Digital_read HomeStart_Pin HIGH, Stepper_move 1, Delay_ms 1])
      (takeWhile (\<lambda>h. h = HIGH) hs))"

text \<open>Whether the call an event makes is a \<^verbatim>\<open>Button_Scan\<close> whose long-press check (line 238) holds.\<close>

fun hold_fires :: "event \<Rightarrow> pc \<times> state \<Rightarrow> bool" where
  "hold_fires (Main_call b1 b2 hs) (At_Button_Scan, s) =
     (Button_Timer (scan_release b2 (scan_press b1 s)) > 2)"
| "hold_fires e c = False"

text \<open>How often the long-press check holds in a run.\<close>

fun home_requests :: "event list \<Rightarrow> pc \<times> state \<Rightarrow> nat" where
  "home_requests [] c = 0"
| "home_requests (e # es) c =
     (case step e c of Inl f \<Rightarrow> 0
      | Inr c' \<Rightarrow> (if hold_fires e c then 1 else 0) + home_requests es c')"

text \<open>An event during which every reading of the button is \<^verbatim>\<open>LOW\<close>: the button is held.\<close>

fun button_held :: "event \<Rightarrow> bool" where
  "button_held Timer_tick = True"
| "button_held (Main_call b1 b2 hs) = (b1 = LOW \<and> b2 = LOW)"

text \<open>The value of a counter and of its sub-counter after \<open>n\<close> runs of the handler.\<close>

definition count_after :: "nat \<Rightarrow> int \<Rightarrow> int \<Rightarrow> int" where
  "count_after n c t = c + (int n + t - 1) div 10"

definition temp_after :: "nat \<Rightarrow> int \<Rightarrow> int" where
  "temp_after n t = (int n + t - 1) mod 10 + 1"

text \<open>What holds of the flags and the position in every reachable configuration.\<close>

definition flags_inv :: "pc \<times> state \<Rightarrow> bool" where
  "flags_inv c = (case c of (p, s) \<Rightarrow>
     0 \<le> Steps s
     \<and> (p = At_Button_Scan \<longrightarrow>
          (Run_Tracker s \<longrightarrow> Steps s \<le> Step_Limit s)
          \<and> (Home_Tracker s \<longrightarrow> Steps s = 0 \<and> \<not> Run_Tracker s))
     \<and> (p = At_Homeing \<longrightarrow> (Home_Tracker s \<and> Run_Tracker s \<longrightarrow> Steps s = 0))
     \<and> (p = At_Tracking \<longrightarrow> \<not> Home_Tracker s))"

text \<open>
  The runs of the handler that are needed at least before \<^verbatim>\<open>Button_Timer\<close> advances, given
  the sub-counter, and before it exceeds 2.
\<close>

definition ticks_to_unit :: "int \<Rightarrow> int" where
  "ticks_to_unit t = (if 9 < t then 1 else 11 - t)"

definition ticks_to_request :: "state \<Rightarrow> int" where
  "ticks_to_request s = 10 * (2 - Button_Timer s) + ticks_to_unit (Button_Timer_temp s)"

section \<open>Basic facts\<close>

lemmas prim_defs = emit_def digitalWrite_def digitalRead_def delay_def delayMicroseconds_def
  stepper_move_def

lemmas scan_defs = Button_Scan_def scan_press_def scan_release_def scan_hold_def

lemmas tick_defs = Timer_1_def tick_button_def tick_time_def tick_led_def

lemma bind_f_Inr [simp]: "bind_f (Inr x) f = f x"
  by (simp add: bind_f_def)

lemma bind_f_Inl [simp]: "bind_f (Inl e) f = Inl e"
  by (simp add: bind_f_def)

lemma bind_f_eq_Inr: "bind_f m f = Inr y \<longleftrightarrow> (\<exists>x. m = Inr x \<and> f x = Inr y)"
  by (cases m) simp_all

lemma level_not_HIGH [simp]: "h \<noteq> HIGH \<longleftrightarrow> h = LOW"
  by (cases h) simp_all

lemma level_not_LOW [simp]: "h \<noteq> LOW \<longleftrightarrow> h = HIGH"
  by (cases h) simp_all

text \<open>
  Everything but a write to a pin or an entry of the trace shows in \<open>vars_of\<close>.
\<close>

lemma vars_of_prims [simp]:
  "vars_of (emit e s) = vars_of s"
  "vars_of (digitalWrite p v s) = vars_of s"
  "vars_of (digitalRead p v s) = vars_of s"
  "vars_of (delay n s) = vars_of s"
  "vars_of (delayMicroseconds n s) = vars_of s"
  "vars_of (stepper_move n s) = vars_of s"
  by (simp_all add: vars_of_def prim_defs)

lemma vars_of_fields:
  assumes "vars_of s' = vars_of s"
  shows "Run_Tracker s' = Run_Tracker s" "Home_Tracker s' = Home_Tracker s"
    "Button_Pressed s' = Button_Pressed s" "Time s' = Time s"
    "Button_Timer s' = Button_Timer s" "Steps s' = Steps s" "Steps_mm s' = Steps_mm s"
    "Step_Limit s' = Step_Limit s" "Rotation_Step_Interval s' = Rotation_Step_Interval s"
    "Delay_1 s' = Delay_1 s" "Delay_2 s' = Delay_2 s"
    "Button_Timer_temp s' = Button_Timer_temp s" "Time_temp s' = Time_temp s"
    "Toggle_Flag s' = Toggle_Flag s" "Timer1_period_us s' = Timer1_period_us s"
    "Timer1_attached s' = Timer1_attached s"
  using arg_cong [OF assms, of Run_Tracker] arg_cong [OF assms, of Home_Tracker]
    arg_cong [OF assms, of Button_Pressed] arg_cong [OF assms, of Time]
    arg_cong [OF assms, of Button_Timer] arg_cong [OF assms, of Steps]
    arg_cong [OF assms, of Steps_mm] arg_cong [OF assms, of Step_Limit]
    arg_cong [OF assms, of Rotation_Step_Interval] arg_cong [OF assms, of Delay_1]
    arg_cong [OF assms, of Delay_2] arg_cong [OF assms, of Button_Timer_temp]
    arg_cong [OF assms, of Time_temp] arg_cong [OF assms, of Toggle_Flag]
    arg_cong [OF assms, of Timer1_period_us] arg_cong [OF assms, of Timer1_attached]
  by (simp_all add: vars_of_def)

lemma moves_append [simp]: "moves (xs @ ys) = moves xs @ moves ys"
  by (induction xs rule: moves.induct) simp_all

lemma replicate_3: "replicate 3 e = [e, e, e]"
  by (simp add: eval_nat_numeral)

lemma exec_append: "exec (xs @ ys) c = bind_f (exec xs c) (exec ys)"
  by (induction xs arbitrary: c) (auto simp: bind_f_def split: sum.splits)

lemma exec_append_Inr: "exec xs c = Inr c' \<Longrightarrow> exec (xs @ ys) c = exec ys c'"
  by (simp add: exec_append)

text \<open>
  Three calls in a row from the head of \<^verbatim>\<open>loop()\<close> are one pass of \<^verbatim>\<open>loop()\<close>.
\<close>

lemma exec_loop:
  "exec (replicate 3 (Main_call b1 b2 hs)) (At_Button_Scan, s)
     = bind_f (loop b1 b2 hs s) (\<lambda>s'. Inr (At_Button_Scan, s'))"
  by (simp add: replicate_3 loop_def bind_f_def split: sum.splits)

section \<open>Initialize: the step interval and its split\<close>

text \<open>
  In exact arithmetic the two presets give 20602 and 10301 microseconds.
\<close>

lemma interval_400: "double_to_int (interval_expr PI (0.15 / 16)) = 10301"
proof -
  have "10301 \<le> interval_expr PI (0.15 / 16)" "interval_expr PI (0.15 / 16) < 10302"
    unfolding interval_expr_def PI_def Hinge_Distance_def Thread_Pitch_mm_def by simp_all
  then show ?thesis unfolding double_to_int_def by (simp add: floor_unique)
qed

lemma interval_200: "double_to_int (interval_expr PI (0.3 / 16)) = 20602"
proof -
  have "20602 \<le> interval_expr PI (0.3 / 16)" "interval_expr PI (0.3 / 16) < 20603"
    unfolding interval_expr_def PI_def Hinge_Distance_def Thread_Pitch_mm_def by simp_all
  then show ?thesis unfolding double_to_int_def by (simp add: floor_unique)
qed

lemma interval_400_n: "double_to_int (interval_expr PI (3 / 320)) = 10301"
  using interval_400 by simp

lemma interval_200_n: "double_to_int (interval_expr PI (3 / 160)) = 20602"
  using interval_200 by simp

text \<open>
  The truncated value does not depend on the last digits of \<^verbatim>\<open>PI\<close> or on a rounding
  error of up to a hundredth of a microsecond, which is more than the board's
  single-precision arithmetic can accumulate over the six operations of the expression.
\<close>

lemma interval_exact:
  "0 < p \<Longrightarrow> interval_expr p base = base * 897500000 / (260 * p)"
  by (simp add: interval_expr_def Hinge_Distance_def Thread_Pitch_mm_def field_simps)

lemma interval_robust:
  assumes p: "3.14159 \<le> p" "p \<le> 3.1416" and e: "\<bar>e\<bar> \<le> 1 / 100"
  shows "double_to_int (interval_expr p (0.15 / 16) + e) = 10301"
    and "double_to_int (interval_expr p (0.3 / 16) + e) = 20602"
proof -
  have pos: "0 < p" using p by simp
  have a: "interval_expr p (0.15 / 16) = (3365625 / 104) / p"
    using pos by (simp add: interval_exact field_simps)
  have b: "interval_expr p (0.3 / 16) = (3365625 / 52) / p"
    using pos by (simp add: interval_exact field_simps)
  have "1030102 / 100 * p \<le> 3365625 / 104" "3365625 / 104 \<le> 1030109 / 100 * p"
    using p by simp_all
  then have a1: "1030102 / 100 \<le> (3365625 / 104) / p" and a2: "(3365625 / 104) / p \<le> 1030109 / 100"
    using pos by (simp_all add: pos_le_divide_eq pos_divide_le_eq)
  have "2060204 / 100 * p \<le> 3365625 / 52" "3365625 / 52 \<le> 2060218 / 100 * p"
    using p by simp_all
  then have b1: "2060204 / 100 \<le> (3365625 / 52) / p" and b2: "(3365625 / 52) / p \<le> 2060218 / 100"
    using pos by (simp_all add: pos_le_divide_eq pos_divide_le_eq)
  have "10301 \<le> interval_expr p (0.15 / 16) + e" "interval_expr p (0.15 / 16) + e < 10302"
    using a1 a2 e unfolding a by linarith+
  then show "double_to_int (interval_expr p (0.15 / 16) + e) = 10301"
    unfolding double_to_int_def by (simp add: floor_unique)
  have "20602 \<le> interval_expr p (0.3 / 16) + e" "interval_expr p (0.3 / 16) + e < 20603"
    using b1 b2 e unfolding b by linarith+
  then show "double_to_int (interval_expr p (0.3 / 16) + e) = 20602"
    unfolding double_to_int_def by (simp add: floor_unique)
qed

lemma setup_preset_400:
  "setup_preset 400 s = s\<lparr>Steps_mm := 5120, Rotation_Step_Interval := 10301\<rparr>"
  unfolding setup_preset_def interval_400 by simp

lemma setup_preset_200:
  "setup_preset 200 s = s\<lparr>Steps_mm := 2560, Rotation_Step_Interval := 20602\<rparr>"
  unfolding setup_preset_def interval_200 by simp

text \<open>
  The two loops at the end of \<^verbatim>\<open>setup()\<close> and the debug output change pins and trace only.
\<close>

lemma wait_release_frame:
  "wait_release bs s = Inr s' \<Longrightarrow> vars_of s' = vars_of s"
  by (induction bs arbitrary: s) (auto split: if_splits)

lemma jog_loop_frame:
  "jog_loop hs s = Inr s' \<Longrightarrow> vars_of s' = vars_of s"
  by (induction hs arbitrary: s) (auto split: if_splits)

lemma setup_jog_frame:
  "setup_jog b0 bs hs s = Inr s' \<Longrightarrow> vars_of s' = vars_of s"
  by (auto simp: setup_jog_def bind_f_eq_Inr split: if_splits
      dest!: wait_release_frame jog_loop_frame)

lemma setup_debug_frame: "vars_of (setup_debug s) = vars_of s"
  by (simp add: setup_debug_def)

lemma setup_main_frame:
  "setup_main ms b0 bs hs = Inr s \<Longrightarrow> vars_of s = vars_of (setup_config ms)"
  by (auto simp: setup_main_def bind_f_eq_Inr setup_debug_frame dest!: setup_jog_frame)

lemma setup_main_not_pressed:
  "setup_main ms HIGH bs hs = Inr (setup_debug (digitalRead Button_Pin HIGH (setup_config ms)))"
  by (simp add: setup_main_def setup_jog_def)

text \<open>
  \<^verbatim>\<open>setup()\<close> returns when the button is up at power-up, or is released at some point and
  the home switch reads \<^verbatim>\<open>LOW\<close> at some point.
\<close>

lemma wait_release_returns: "HIGH \<in> set bs \<Longrightarrow> \<exists>s'. wait_release bs s = Inr s'"
proof (induction bs arbitrary: s)
  case Nil
  then show ?case by simp
next
  case (Cons b bs)
  then show ?case by (cases b) simp_all
qed

lemma jog_loop_returns: "LOW \<in> set hs \<Longrightarrow> \<exists>s'. jog_loop hs s = Inr s'"
proof (induction hs arbitrary: s)
  case Nil
  then show ?case by simp
next
  case (Cons h hs)
  then show ?case by (cases h) simp_all
qed

lemma setup_main_returns:
  assumes "b0 = HIGH \<or> (HIGH \<in> set bs \<and> LOW \<in> set hs)"
  shows "\<exists>s. setup_main ms b0 bs hs = Inr s"
proof (cases b0)
  case HIGH
  then show ?thesis by (simp add: setup_main_not_pressed)
next
  case LOW
  with assms have b: "HIGH \<in> set bs" and h: "LOW \<in> set hs" by simp_all
  from wait_release_returns [OF b] obtain s1 where
    1: "wait_release bs (digitalRead Button_Pin b0 (setup_config ms)) = Inr s1" by blast
  from jog_loop_returns [OF h] obtain s2 where
    2: "jog_loop hs (digitalWrite Stepper_Enable LOW (digitalWrite Stepper_Speed LOW s1)) = Inr s2"
    by blast
  from LOW 1 2 show ?thesis by (simp add: setup_main_def setup_jog_def)
qed

lemma setup_main_400_not_pressed:
  "setup_main 400 HIGH [] [] = Inr (setup_debug (digitalRead Button_Pin HIGH (setup_config 400)))"
  by (rule setup_main_not_pressed)

lemma setup_config_400:
  "Steps_mm (setup_config 400) = 5120" "Rotation_Step_Interval (setup_config 400) = 10301"
  "Delay_1 (setup_config 400) = 10301" "Delay_2 (setup_config 400) = 0"
  "Step_Limit (setup_config 400) = 460800"
  by (simp_all add: setup_config_def setup_vars_def setup_delays_def setup_preset_400
      Threaded_UpperRod_Length_def)

lemma setup_config_200:
  "Steps_mm (setup_config 200) = 2560" "Rotation_Step_Interval (setup_config 200) = 20602"
  "Delay_1 (setup_config 200) = 16000" "Delay_2 (setup_config 200) = 4602"
  "Step_Limit (setup_config 200) = 230400"
  by (simp_all add: setup_config_def setup_vars_def setup_delays_def setup_preset_200
      Threaded_UpperRod_Length_def)

lemma setup_config_other:
  assumes "ms \<noteq> 200" and "ms \<noteq> 400"
  shows "Steps_mm (setup_config ms) = 0" "Rotation_Step_Interval (setup_config ms) = 0"
    "Delay_1 (setup_config ms) = 0" "Delay_2 (setup_config ms) = 0"
    "Step_Limit (setup_config ms) = 0"
  using assms
  by (simp_all add: setup_config_def setup_vars_def setup_delays_def setup_preset_def
      setup_io_def prim_defs power_on_def)

lemma setup_config_flags:
  "Steps (setup_config ms) = 0" "Run_Tracker (setup_config ms) = False"
  "Home_Tracker (setup_config ms) = True" "Button_Pressed (setup_config ms) = False"
  "Time (setup_config ms) = 0" "Button_Timer (setup_config ms) = 0"
  "Button_Timer_temp (setup_config ms) = 0" "Time_temp (setup_config ms) = 0"
  "Timer1_period_us (setup_config ms) = 100000"
  by (simp_all add: setup_config_def setup_vars_def setup_delays_def setup_preset_def
      setup_io_def prim_defs power_on_def)

text \<open>
  Every value \<^verbatim>\<open>setup()\<close> computes fits its machine type.
\<close>

lemma setup_config_in_range:
  "0 \<le> Rotation_Step_Interval (setup_config ms) \<and> Rotation_Step_Interval (setup_config ms) \<le> INT_MAX
   \<and> 0 \<le> Delay_1 (setup_config ms) \<and> Delay_1 (setup_config ms) \<le> 16000
   \<and> 0 \<le> Delay_2 (setup_config ms) \<and> Delay_2 (setup_config ms) \<le> INT_MAX
   \<and> 0 \<le> Step_Limit (setup_config ms) \<and> Step_Limit (setup_config ms) < LONG_MAX"
proof -
  consider "ms = 200" | "ms = 400" | "ms \<noteq> 200" "ms \<noteq> 400" by blast
  then show ?thesis
  proof cases
    case 1
    then show ?thesis by (simp add: setup_config_200 INT_MAX_def LONG_MAX_def)
  next
    case 2
    then show ?thesis by (simp add: setup_config_400 INT_MAX_def LONG_MAX_def)
  next
    case 3
    then show ?thesis by (simp add: setup_config_other INT_MAX_def LONG_MAX_def)
  qed
qed

lemmas setup_defs = setup_debug_def setup_config_def setup_vars_def setup_delays_def
  setup_preset_400 setup_io_def power_on_def

lemmas run_defs = scan_defs prim_defs Let_def Homeing_def Tracking_def limit_stop_def Timer_1_def
  tick_button_def tick_time_def tick_led_def INT_MAX_def LONG_MAX_def eval_nat_numeral

text \<open>
  Claim C3.  For the two supported motor resolutions (200 and 400 steps), when
  \<^verbatim>\<open>setup()\<close> returns, \<^verbatim>\<open>Rotation_Step_Interval\<close> holds the truncated value of the preset's
  expression, \<^verbatim>\<open>Delay_1\<close> is at most 16000 and \<^verbatim>\<open>Delay_1 + Delay_2\<close> is the interval: above
  16000 the first delay is 16000 and the second the rest, otherwise the first delay is the
  interval and the second is 0.
\<close>

theorem setup_delay_split:
  assumes "setup_main MOTOR_STEPS b0 bs hs = Inr s"
    and "MOTOR_STEPS = 200 \<or> MOTOR_STEPS = 400"
  shows "Rotation_Step_Interval s =
           double_to_int (interval_expr PI ((if MOTOR_STEPS = 200 then 0.3 else 0.15) / 16))
       \<and> Delay_1 s \<le> 16000
       \<and> Delay_1 s + Delay_2 s = Rotation_Step_Interval s
       \<and> (if Rotation_Step_Interval s > 16000
           then Delay_1 s = 16000 \<and> Delay_2 s = Rotation_Step_Interval s - 16000
           else Delay_1 s = Rotation_Step_Interval s \<and> Delay_2 s = 0)"
proof -
  note s = vars_of_fields [OF setup_main_frame [OF assms(1)]]
  from assms(2) show ?thesis
  proof
    assume "MOTOR_STEPS = 200"
    then show ?thesis by (simp add: s setup_config_200 interval_200_n)
  next
    assume "MOTOR_STEPS = 400"
    then show ?thesis by (simp add: s setup_config_400 interval_400_n)
  qed
qed

text \<open>
  With 200 steps the interval is 20602 and is split into 16000 and 4602.
\<close>

theorem setup_delay_split_witness:
  "setup_main 200 HIGH [] [] = Inr (setup_debug (digitalRead Button_Pin HIGH (setup_config 200)))
   \<and> ((200::int) = 200 \<or> (200::int) = 400)
   \<and> Delay_1 (setup_debug (digitalRead Button_Pin HIGH (setup_config 200))) = 16000
   \<and> Delay_2 (setup_debug (digitalRead Button_Pin HIGH (setup_config 200))) = 4602
   \<and> Rotation_Step_Interval (setup_debug (digitalRead Button_Pin HIGH (setup_config 200))) = 20602"
  using setup_delay_split [OF setup_main_not_pressed [of 200 "[]" "[]"]]
  by (simp add: setup_main_not_pressed interval_200_n)

text \<open>
  Claim C4, as amended.  With \<^verbatim>\<open>MOTOR_STEPS\<close> 400, thread pitch 1.25, hinge distance 260
  and rod length 100, when \<^verbatim>\<open>setup()\<close> returns \<^verbatim>\<open>Steps_mm\<close> is 5120, the step interval is
  10301 microseconds with \<^verbatim>\<open>Delay_1\<close> 10301 and \<^verbatim>\<open>Delay_2\<close> 0, and \<^verbatim>\<open>Step_Limit\<close> is
  5120 * (100 - 10) = 460800.
\<close>

theorem setup_reference_values:
  assumes "setup_main 400 b0 bs hs = Inr s"
  shows "Steps_mm s = 5120 \<and> Rotation_Step_Interval s = 10301
     \<and> Delay_1 s = 10301 \<and> Delay_2 s = 0
     \<and> Step_Limit s = 5120 * (100 - 10) \<and> Step_Limit s = 460800"
  using vars_of_fields [OF setup_main_frame [OF assms]] by (simp add: setup_config_400)

theorem setup_reference_values_witness:
  "setup_main 400 HIGH [] [] = Inr (setup_debug (digitalRead Button_Pin HIGH (setup_config 400)))
   \<and> Steps_mm (setup_debug (digitalRead Button_Pin HIGH (setup_config 400))) = 5120
   \<and> Delay_1 (setup_debug (digitalRead Button_Pin HIGH (setup_config 400))) = 10301
   \<and> Step_Limit (setup_debug (digitalRead Button_Pin HIGH (setup_config 400))) = 460800"
  using setup_reference_values [OF setup_main_400_not_pressed]
  by (simp add: setup_main_not_pressed)

text \<open>
  The interval is not 9770 microseconds: the expression of line 127 has the value
  10301.07.
\<close>

theorem setup_reference_counterexample:
  "setup_main 400 HIGH [] [] = Inr (setup_debug (digitalRead Button_Pin HIGH (setup_config 400)))
   \<and> Rotation_Step_Interval (setup_debug (digitalRead Button_Pin HIGH (setup_config 400))) = 10301
   \<and> Delay_1 (setup_debug (digitalRead Button_Pin HIGH (setup_config 400))) \<noteq> 9770"
  by (simp add: setup_main_not_pressed setup_debug_def prim_defs setup_config_400)

section \<open>Timer interrupt: the two counters\<close>

text \<open>
  The handler writes neither the flags of the main program nor the position.
\<close>

lemma Timer_1_frame:
  assumes "Timer_1 s = Inr s'"
  shows "Run_Tracker s' = Run_Tracker s" "Home_Tracker s' = Home_Tracker s"
    "Button_Pressed s' = Button_Pressed s" "Steps s' = Steps s" "Step_Limit s' = Step_Limit s"
    "Steps_mm s' = Steps_mm s" "Delay_1 s' = Delay_1 s" "Delay_2 s' = Delay_2 s"
    "trace s' = trace s"
  using assms by (auto simp: tick_defs prim_defs bind_f_eq_Inr split: if_splits)

text \<open>
  One run of the handler, when no counter is at \<^verbatim>\<open>INT_MAX\<close>.
\<close>

lemma Timer_1_counts:
  assumes "Button_Pressed s \<longrightarrow> Button_Timer s < INT_MAX"
    and "Run_Tracker s \<longrightarrow> Time s < INT_MAX"
  shows "\<exists>s'. Timer_1 s = Inr s'
     \<and> Button_Pressed s' = Button_Pressed s \<and> Run_Tracker s' = Run_Tracker s
     \<and> Button_Timer s' = (if Button_Pressed s \<and> 9 < Button_Timer_temp s
                            then Button_Timer s + 1 else Button_Timer s)
     \<and> Button_Timer_temp s' = (if Button_Pressed s
          then (if 9 < Button_Timer_temp s then 1 else Button_Timer_temp s + 1)
          else Button_Timer_temp s)
     \<and> Time s' = (if Run_Tracker s \<and> 9 < Time_temp s then Time s + 1 else Time s)
     \<and> Time_temp s' = (if Run_Tracker s
          then (if 9 < Time_temp s then 1 else Time_temp s + 1)
          else Time_temp s)"
  using assms by (auto simp: tick_defs prim_defs)

lemma count_after_Suc:
  "1 \<le> t \<Longrightarrow> t \<le> 10 \<Longrightarrow>
   count_after n (if 9 < t then c + 1 else c) (if 9 < t then 1 else t + 1) = count_after (Suc n) c t"
  by (cases "t = 10") (auto simp: count_after_def)

lemma temp_after_Suc:
  "1 \<le> t \<Longrightarrow> t \<le> 10 \<Longrightarrow> temp_after n (if 9 < t then 1 else t + 1) = temp_after (Suc n) t"
  by (cases "t = 10") (auto simp: temp_after_def)

lemma temp_step_range:
  "1 \<le> t \<Longrightarrow> t \<le> 10 \<Longrightarrow> 1 \<le> (if 9 < t then 1 else t + 1) \<and> (if 9 < t then 1 else t + 1) \<le> (10::int)"
  by auto

text \<open>
  Any number of runs, by induction: a counter advances once in ten runs.
\<close>

lemma Timer_ticks_counts:
  assumes "Button_Pressed s \<longrightarrow> 1 \<le> Button_Timer_temp s \<and> Button_Timer_temp s \<le> 10
             \<and> Button_Timer s + int n \<le> INT_MAX"
    and "Run_Tracker s \<longrightarrow> 1 \<le> Time_temp s \<and> Time_temp s \<le> 10 \<and> Time s + int n \<le> INT_MAX"
  shows "\<exists>s'. Timer_ticks n s = Inr s'
     \<and> Button_Pressed s' = Button_Pressed s \<and> Run_Tracker s' = Run_Tracker s
     \<and> Button_Timer s' = (if Button_Pressed s then count_after n (Button_Timer s) (Button_Timer_temp s)
                            else Button_Timer s)
     \<and> Button_Timer_temp s' = (if Button_Pressed s then temp_after n (Button_Timer_temp s)
                                 else Button_Timer_temp s)
     \<and> Time s' = (if Run_Tracker s then count_after n (Time s) (Time_temp s) else Time s)
     \<and> Time_temp s' = (if Run_Tracker s then temp_after n (Time_temp s) else Time_temp s)"
  using assms
proof (induction n arbitrary: s)
  case 0
  then show ?case by (auto simp: count_after_def temp_after_def)
next
  case (Suc n)
  have "\<exists>s1. Timer_1 s = Inr s1
     \<and> Button_Pressed s1 = Button_Pressed s \<and> Run_Tracker s1 = Run_Tracker s
     \<and> Button_Timer s1 = (if Button_Pressed s \<and> 9 < Button_Timer_temp s
                            then Button_Timer s + 1 else Button_Timer s)
     \<and> Button_Timer_temp s1 = (if Button_Pressed s
          then (if 9 < Button_Timer_temp s then 1 else Button_Timer_temp s + 1)
          else Button_Timer_temp s)
     \<and> Time s1 = (if Run_Tracker s \<and> 9 < Time_temp s then Time s + 1 else Time s)
     \<and> Time_temp s1 = (if Run_Tracker s
          then (if 9 < Time_temp s then 1 else Time_temp s + 1)
          else Time_temp s)"
    using Suc.prems by (intro Timer_1_counts) auto
  then obtain s1 where t: "Timer_1 s = Inr s1"
    and f: "Button_Pressed s1 = Button_Pressed s" "Run_Tracker s1 = Run_Tracker s"
    and b: "Button_Timer s1 = (if Button_Pressed s \<and> 9 < Button_Timer_temp s
                            then Button_Timer s + 1 else Button_Timer s)"
      "Button_Timer_temp s1 = (if Button_Pressed s
          then (if 9 < Button_Timer_temp s then 1 else Button_Timer_temp s + 1)
          else Button_Timer_temp s)"
    and c: "Time s1 = (if Run_Tracker s \<and> 9 < Time_temp s then Time s + 1 else Time s)"
      "Time_temp s1 = (if Run_Tracker s
          then (if 9 < Time_temp s then 1 else Time_temp s + 1)
          else Time_temp s)"
    by blast
  have p1: "Button_Pressed s1 \<longrightarrow> 1 \<le> Button_Timer_temp s1 \<and> Button_Timer_temp s1 \<le> 10
             \<and> Button_Timer s1 + int n \<le> INT_MAX"
    using Suc.prems(1) f b by auto
  have p2: "Run_Tracker s1 \<longrightarrow> 1 \<le> Time_temp s1 \<and> Time_temp s1 \<le> 10 \<and> Time s1 + int n \<le> INT_MAX"
    using Suc.prems(2) f c by auto
  from Suc.IH [OF p1 p2] obtain s' where r: "Timer_ticks n s1 = Inr s'"
    and r1: "Button_Pressed s' = Button_Pressed s1" "Run_Tracker s' = Run_Tracker s1"
    and r2: "Button_Timer s' = (if Button_Pressed s1 then count_after n (Button_Timer s1) (Button_Timer_temp s1)
                            else Button_Timer s1)"
      "Button_Timer_temp s' = (if Button_Pressed s1 then temp_after n (Button_Timer_temp s1)
                                 else Button_Timer_temp s1)"
    and r3: "Time s' = (if Run_Tracker s1 then count_after n (Time s1) (Time_temp s1) else Time s1)"
      "Time_temp s' = (if Run_Tracker s1 then temp_after n (Time_temp s1) else Time_temp s1)"
    by blast
  have "Timer_ticks (Suc n) s = Inr s'" using t r by simp
  moreover have "Button_Timer s' = (if Button_Pressed s then count_after (Suc n) (Button_Timer s) (Button_Timer_temp s)
                            else Button_Timer s)"
    using Suc.prems(1) r2(1) f b count_after_Suc [of "Button_Timer_temp s" n "Button_Timer s"]
    by (cases "Button_Pressed s") simp_all
  moreover have "Button_Timer_temp s' = (if Button_Pressed s then temp_after (Suc n) (Button_Timer_temp s)
                                 else Button_Timer_temp s)"
    using Suc.prems(1) r2(2) f b temp_after_Suc [of "Button_Timer_temp s" n]
    by (cases "Button_Pressed s") simp_all
  moreover have "Time s' = (if Run_Tracker s then count_after (Suc n) (Time s) (Time_temp s) else Time s)"
    using Suc.prems(2) r3(1) f c count_after_Suc [of "Time_temp s" n "Time s"]
    by (cases "Run_Tracker s") simp_all
  moreover have "Time_temp s' = (if Run_Tracker s then temp_after (Suc n) (Time_temp s) else Time_temp s)"
    using Suc.prems(2) r3(2) f c temp_after_Suc [of "Time_temp s" n]
    by (cases "Run_Tracker s") simp_all
  ultimately show ?case using r1 f by auto
qed

text \<open>
  After power-up the sub-counter is 0 and the first unit takes eleven runs.
\<close>

lemma first_unit_after_power_on:
  "Timer_ticks 10 ((setup_config ms)\<lparr>Button_Pressed := True\<rparr>)
     = Inr ((setup_config ms)\<lparr>Button_Pressed := True, Button_Timer_temp := 10\<rparr>)"
  "Timer_ticks 11 ((setup_config ms)\<lparr>Button_Pressed := True\<rparr>)
     = Inr ((setup_config ms)\<lparr>Button_Pressed := True, Button_Timer_temp := 1, Button_Timer := 1\<rparr>)"
  by (simp_all add: eval_nat_numeral tick_defs setup_config_flags INT_MAX_def)

text \<open>
  Claim C5, as amended.  The timer is set to a period of 100000 microseconds (100 ms).
  While a press is latched, ten consecutive runs of the handler advance \<^verbatim>\<open>Button_Timer\<close> by
  exactly one (the sub-counter being in its working range 1 to 10), and nothing advances it
  while no press is latched; \<^verbatim>\<open>Time\<close> advances in the same way while \<^verbatim>\<open>Run_Tracker\<close> is
  set.  One unit of either counter therefore is ten periods, 1000000 microseconds: the
  units are seconds and the ticks are tenths of a second.
\<close>

theorem timer_cadence:
  assumes "Button_Pressed s \<longrightarrow> 1 \<le> Button_Timer_temp s \<and> Button_Timer_temp s \<le> 10
             \<and> Button_Timer s + 10 \<le> INT_MAX"
    and "Run_Tracker s \<longrightarrow> 1 \<le> Time_temp s \<and> Time_temp s \<le> 10 \<and> Time s + 10 \<le> INT_MAX"
  shows "Timer1_period_us (setup_config MOTOR_STEPS) = 100000
     \<and> 10 * Timer1_period_us (setup_config MOTOR_STEPS) = 1000000
     \<and> (\<exists>s'. Timer_ticks 10 s = Inr s'
          \<and> (Button_Pressed s \<longrightarrow> Button_Timer s' = Button_Timer s + 1
                \<and> Button_Timer_temp s' = Button_Timer_temp s)
          \<and> (\<not> Button_Pressed s \<longrightarrow> Button_Timer s' = Button_Timer s)
          \<and> (Run_Tracker s \<longrightarrow> Time s' = Time s + 1 \<and> Time_temp s' = Time_temp s)
          \<and> (\<not> Run_Tracker s \<longrightarrow> Time s' = Time s))"
proof -
  have a: "1 \<le> t \<Longrightarrow> t \<le> 10 \<Longrightarrow> count_after 10 c t = c + 1" for c t
    unfolding count_after_def by simp
  have b: "1 \<le> t \<Longrightarrow> t \<le> 10 \<Longrightarrow> temp_after 10 t = t" for t
    unfolding temp_after_def by simp presburger
  from assms have
    "Button_Pressed s \<longrightarrow> 1 \<le> Button_Timer_temp s \<and> Button_Timer_temp s \<le> 10
       \<and> Button_Timer s + int 10 \<le> INT_MAX"
    "Run_Tracker s \<longrightarrow> 1 \<le> Time_temp s \<and> Time_temp s \<le> 10 \<and> Time s + int 10 \<le> INT_MAX"
    by simp_all
  from Timer_ticks_counts [OF this] obtain s' where "Timer_ticks 10 s = Inr s'"
    and "Button_Timer s' = (if Button_Pressed s
           then count_after 10 (Button_Timer s) (Button_Timer_temp s) else Button_Timer s)"
    and "Button_Timer_temp s' = (if Button_Pressed s
           then temp_after 10 (Button_Timer_temp s) else Button_Timer_temp s)"
    and "Time s' = (if Run_Tracker s then count_after 10 (Time s) (Time_temp s) else Time s)"
    and "Time_temp s' = (if Run_Tracker s then temp_after 10 (Time_temp s) else Time_temp s)"
    by blast
  with assms show ?thesis by (auto simp: a b setup_config_flags)
qed

text \<open>
  A latched press with both counters running, and the state after \<^verbatim>\<open>setup()\<close>, where
  neither runs.
\<close>

theorem timer_cadence_witness:
  "(\<exists>s'. Timer_ticks 10 ((setup_config 400)\<lparr>Button_Pressed := True, Button_Timer_temp := 4,
        Run_Tracker := True, Time_temp := 10, Time := 6\<rparr>) = Inr s'
        \<and> Button_Timer s' = 1 \<and> Button_Timer_temp s' = 4 \<and> Time s' = 7 \<and> Time_temp s' = 10)
   \<and> (\<exists>s'. Timer_ticks 10 (setup_config 400) = Inr s' \<and> Button_Timer s' = 0 \<and> Time s' = 0)"
  using timer_cadence [of "(setup_config 400)\<lparr>Button_Pressed := True, Button_Timer_temp := 4,
        Run_Tracker := True, Time_temp := 10, Time := 6\<rparr>" 400]
    timer_cadence [of "setup_config 400" 400]
  by (simp add: setup_config_flags INT_MAX_def)

text \<open>
  A press latched after power-up: one unit of \<^verbatim>\<open>Button_Timer\<close> takes ten periods of
  100 ms, which is neither a tenth of a second nor ten hundredths.
\<close>

theorem timer_cadence_counterexample:
  "Timer1_period_us (setup_config 400) = 100000
   \<and> (case exec (replicate 3 (Main_call LOW LOW [LOW]) @ [Timer_tick])
             (At_Button_Scan, setup_debug (digitalRead Button_Pin HIGH (setup_config 400))) of
         Inl f \<Rightarrow> False
       | Inr (p, s) \<Rightarrow> Button_Pressed s \<and> Button_Timer s = 0
           \<and> (case Timer_ticks 9 s of Inl f \<Rightarrow> False | Inr s' \<Rightarrow> Button_Timer s' = 0)
           \<and> (case Timer_ticks 10 s of Inl f \<Rightarrow> False | Inr s' \<Rightarrow> Button_Timer s' = 1))
   \<and> 10 * Timer1_period_us (setup_config 400) \<noteq> 100000
   \<and> Timer1_period_us (setup_config 400) \<noteq> 10000"
  by (simp add: setup_defs run_defs)

section \<open>Button handling\<close>

lemma scan_idle:
  assumes "\<not> Button_Pressed s" and "Button_Timer s \<le> 2"
  shows "Button_Scan HIGH b2 s = s\<lparr>trace := trace s @ [Digital_read Button_Pin HIGH]\<rparr>"
  using assms by (simp add: scan_defs prim_defs Let_def)

lemma scan_tap:
  assumes "\<not> Button_Pressed s" and "\<not> Run_Tracker s"
  shows "Button_Scan LOW HIGH s =
     s\<lparr>Run_Tracker := True, Time := 0, Button_Pressed := False, Button_Timer := 0,
       pin_out := (pin_out s)(Stepper_Enable := LOW),
       trace := trace s @ [Digital_read Button_Pin LOW, Delay_ms 100,
         Digital_read Button_Pin HIGH, Delay_ms 100, Serial_println ''Tracking Started'']\<rparr>"
  using assms by (simp add: scan_defs prim_defs Let_def)

lemma Button_Scan_frame:
  "Steps (Button_Scan b1 b2 s) = Steps s" "Step_Limit (Button_Scan b1 b2 s) = Step_Limit s"
  "Home_Tracker (Button_Scan b1 b2 s) \<and> Run_Tracker (Button_Scan b1 b2 s) \<longrightarrow> Home_Tracker s"
  by (cases b1; cases b2; simp add: scan_defs prim_defs Let_def)+

text \<open>
  Claim C7, as amended.  When \<^verbatim>\<open>Button_Scan\<close> finds a latched press released, what it
  does depends on \<^verbatim>\<open>Button_Timer\<close> and \<^verbatim>\<open>Run_Tracker\<close> only.  Below 1 and not tracking:
  the motor is enabled, \<^verbatim>\<open>Run_Tracker\<close> is set, \<^verbatim>\<open>Time\<close> is reset and the start is printed
  once.  Below 1 and tracking: \<^verbatim>\<open>Run_Tracker\<close> is cleared, the motor is disabled, the stop
  is printed once with the unchanged position.  From 1 to 2: nothing changes but the latch.
  From 1 on, the release branch (lines 211 to 237) itself changes nothing but the latch;
  above 2 the long-press check of the same call then requests homing.
\<close>

theorem button_release_classification:
  assumes "Button_Pressed s"
  shows "(Button_Timer s < 1 \<and> \<not> Run_Tracker s \<longrightarrow>
            Button_Scan b1 HIGH s =
              s\<lparr>Run_Tracker := True, Time := 0, Button_Pressed := False,
                pin_out := (pin_out s)(Stepper_Enable := LOW),
                trace := trace s @ [Digital_read Button_Pin b1, Digital_read Button_Pin HIGH,
                  Delay_ms 100, Serial_println ''Tracking Started'']\<rparr>)
       \<and> (Button_Timer s < 1 \<and> Run_Tracker s \<longrightarrow>
            Button_Scan b1 HIGH s =
              s\<lparr>Run_Tracker := False, Button_Pressed := False,
                pin_out := (pin_out s)(Stepper_Enable := HIGH, Status_Led_Pin := LOW),
                trace := trace s @ [Digital_read Button_Pin b1, Digital_read Button_Pin HIGH,
                  Delay_ms 100, Serial_println ''Tracking Stopped'',
                  Serial_print ''Actual step position: '', Serial_println_num (Steps s)]\<rparr>)
       \<and> (1 \<le> Button_Timer s \<and> Button_Timer s \<le> 2 \<longrightarrow>
            Button_Scan b1 HIGH s =
              s\<lparr>Button_Pressed := False,
                trace := trace s @ [Digital_read Button_Pin b1, Digital_read Button_Pin HIGH]\<rparr>)
       \<and> (1 \<le> Button_Timer s \<longrightarrow>
            scan_release HIGH s =
              s\<lparr>Button_Pressed := False, trace := trace s @ [Digital_read Button_Pin HIGH]\<rparr>)
       \<and> (2 < Button_Timer s \<longrightarrow>
            Button_Scan b1 HIGH s =
              s\<lparr>Run_Tracker := False, Home_Tracker := True, Button_Pressed := False,
                Button_Timer := 0,
                trace := trace s @ [Digital_read Button_Pin b1, Digital_read Button_Pin HIGH,
                  Delay_ms 100]\<rparr>)"
  using assms by (cases b1) (simp_all add: scan_defs prim_defs Let_def)

text \<open>
  The four cases, each at a state that meets it.
\<close>

theorem button_release_classification_witness:
  "Button_Pressed ((setup_config 400)\<lparr>Button_Pressed := True\<rparr>)
   \<and> Run_Tracker (Button_Scan HIGH HIGH ((setup_config 400)\<lparr>Button_Pressed := True\<rparr>))
   \<and> \<not> Run_Tracker (Button_Scan HIGH HIGH
         ((setup_config 400)\<lparr>Button_Pressed := True, Run_Tracker := True, Steps := 7\<rparr>))
   \<and> Steps (Button_Scan HIGH HIGH
         ((setup_config 400)\<lparr>Button_Pressed := True, Run_Tracker := True, Steps := 7\<rparr>)) = 7
   \<and> \<not> Button_Pressed (Button_Scan HIGH HIGH
         ((setup_config 400)\<lparr>Button_Pressed := True, Button_Timer := 2\<rparr>))
   \<and> \<not> Run_Tracker (Button_Scan HIGH HIGH
         ((setup_config 400)\<lparr>Button_Pressed := True, Button_Timer := 2\<rparr>))
   \<and> Home_Tracker (Button_Scan HIGH HIGH
         ((setup_config 400)\<lparr>Button_Pressed := True, Home_Tracker := False, Button_Timer := 3\<rparr>))"
  using button_release_classification [of "(setup_config 400)\<lparr>Button_Pressed := True\<rparr>" HIGH]
    button_release_classification
      [of "(setup_config 400)\<lparr>Button_Pressed := True, Run_Tracker := True, Steps := 7\<rparr>" HIGH]
    button_release_classification
      [of "(setup_config 400)\<lparr>Button_Pressed := True, Button_Timer := 2\<rparr>" HIGH]
    button_release_classification
      [of "(setup_config 400)\<lparr>Button_Pressed := True, Home_Tracker := False, Button_Timer := 3\<rparr>" HIGH]
  by (simp add: setup_config_flags)

text \<open>
  A press held until the timer has counted to 3 and released before the next
  \<^verbatim>\<open>Button_Scan\<close>: the call that sees the release sets \<^verbatim>\<open>Home_Tracker\<close> and resets
  \<^verbatim>\<open>Button_Timer\<close>.
\<close>

theorem button_release_counterexample:
  "setup_main 400 HIGH [] [] = Inr (setup_debug (digitalRead Button_Pin HIGH (setup_config 400)))
   \<and> (case exec (replicate 3 (Main_call HIGH HIGH [LOW]) @ replicate 3 (Main_call LOW LOW [])
                  @ replicate 31 Timer_tick)
             (At_Button_Scan, setup_debug (digitalRead Button_Pin HIGH (setup_config 400))) of
         Inl f \<Rightarrow> False
       | Inr (p, s) \<Rightarrow> p = At_Button_Scan \<and> Button_Pressed s \<and> 1 \<le> Button_Timer s
           \<and> \<not> Home_Tracker s \<and> Home_Tracker (Button_Scan HIGH HIGH s)
           \<and> Button_Timer (Button_Scan HIGH HIGH s) \<noteq> Button_Timer s)"
  by (simp add: setup_main_not_pressed setup_defs run_defs)

section \<open>Homing\<close>

lemma home_loop_done:
  "LOW \<in> set hs \<Longrightarrow>
   home_loop hs s = Inr (s\<lparr>trace := trace s @ home_steps hs @ [Digital_read HomeStart_Pin LOW]\<rparr>)"
proof (induction hs arbitrary: s)
  case Nil
  then show ?case by simp
next
  case (Cons h hs)
  show ?case
  proof (cases h)
    case LOW
    then show ?thesis by (simp add: home_steps_def prim_defs)
  next
    case HIGH
    with Cons.prems have "LOW \<in> set hs" by simp
    from Cons.IH [OF this] HIGH show ?thesis by (simp add: home_steps_def prim_defs)
  qed
qed

lemma home_loop_blocked: "LOW \<notin> set hs \<Longrightarrow> home_loop hs s = Inl Blocked"
proof (induction hs arbitrary: s)
  case Nil
  show ?case by simp
next
  case (Cons h hs)
  then show ?case by (cases h) simp_all
qed

lemma moves_home_steps: "moves (home_steps hs) = replicate (length (takeWhile (\<lambda>h. h = HIGH) hs)) 1"
  by (induction hs) (simp_all add: home_steps_def)

lemma Homeing_done:
  assumes "Home_Tracker s" "LOW \<in> set hs"
  shows "Homeing hs s = Inr (s\<lparr>Run_Tracker := False, Home_Tracker := False, Steps := 0,
     pin_out := (pin_out s)(Stepper_Speed := LOW, Stepper_Enable := HIGH, Status_Led_Pin := LOW),
     trace := trace s @ [Serial_println ''Homing!''] @ home_steps hs @
       [Digital_read HomeStart_Pin LOW, Serial_println ''Starting point reached'']\<rparr>)"
  using assms
  by (simp add: Homeing_def home_loop_done prim_defs Stepper_Speed_def Stepper_Enable_def
      Status_Led_Pin_def fun_upd_twist)

lemma Homeing_idle: "\<not> Home_Tracker s \<Longrightarrow> Homeing hs s = Inr s"
  by (simp add: Homeing_def)

lemma Homeing_blocked:
  "Home_Tracker s \<Longrightarrow> LOW \<notin> set hs \<Longrightarrow> Homeing hs s = Inl Blocked"
  by (simp add: Homeing_def home_loop_blocked)

lemma Homeing_frame:
  assumes "Homeing hs s = Inr s'"
  shows "\<not> Home_Tracker s'" "Steps s' = (if Home_Tracker s then 0 else Steps s)"
    "Step_Limit s' = Step_Limit s" "Run_Tracker s' \<longrightarrow> Run_Tracker s"
proof -
  have "\<not> Home_Tracker s' \<and> Steps s' = (if Home_Tracker s then 0 else Steps s)
    \<and> Step_Limit s' = Step_Limit s \<and> (Run_Tracker s' \<longrightarrow> Run_Tracker s)"
  proof (cases "Home_Tracker s")
    case False
    with assms show ?thesis by (simp add: Homeing_idle)
  next
    case True
    have "LOW \<in> set hs"
    proof (rule ccontr)
      assume "LOW \<notin> set hs"
      with assms True show False by (simp add: Homeing_def home_loop_blocked)
    qed
    with assms True show ?thesis by (auto simp: Homeing_done)
  qed
  then show "\<not> Home_Tracker s'" "Steps s' = (if Home_Tracker s then 0 else Steps s)"
    "Step_Limit s' = Step_Limit s" "Run_Tracker s' \<longrightarrow> Run_Tracker s"
    by simp_all
qed

lemma Homeing_moves:
  assumes "Homeing hs s = Inr s'"
  shows "moves (drop (length (trace s)) (trace s'))
     = (if Home_Tracker s then replicate (length (takeWhile (\<lambda>h. h = HIGH) hs)) 1 else [])"
proof (cases "Home_Tracker s")
  case False
  with assms show ?thesis by (simp add: Homeing_idle)
next
  case True
  have "LOW \<in> set hs"
  proof (rule ccontr)
    assume "LOW \<notin> set hs"
    with assms True show False by (simp add: Homeing_def home_loop_blocked)
  qed
  with assms True show ?thesis by (auto simp: Homeing_done moves_home_steps)
qed

text \<open>
  Claim C8.  When \<^verbatim>\<open>Homeing\<close> runs with \<^verbatim>\<open>Home_Tracker\<close> set and the home switch reads
  \<^verbatim>\<open>LOW\<close> at some point, it returns with \<^verbatim>\<open>Steps\<close> 0, the motor disabled, \<^verbatim>\<open>Home_Tracker\<close>
  and \<^verbatim>\<open>Run_Tracker\<close> clear; all it reads on the way is the home switch, never the button.
\<close>

theorem homeing_completes:
  assumes "Home_Tracker s" and "LOW \<in> set hs"
  shows "\<exists>s'. Homeing hs s = Inr s'
     \<and> Steps s' = 0 \<and> pin_out s' Stepper_Enable = HIGH
     \<and> \<not> Home_Tracker s' \<and> \<not> Run_Tracker s'
     \<and> trace s' = trace s @ [Serial_println ''Homing!''] @ home_steps hs @
          [Digital_read HomeStart_Pin LOW, Serial_println ''Starting point reached'']
     \<and> (\<forall>v. Digital_read Button_Pin v \<notin> set (drop (length (trace s)) (trace s')))"
  using assms
  by (auto simp: Homeing_done Stepper_Enable_def Status_Led_Pin_def home_steps_def
      Button_Pin_def HomeStart_Pin_def)

text \<open>
  Two steps to the switch, from the state after \<^verbatim>\<open>setup()\<close>.
\<close>

theorem homeing_completes_witness:
  "Home_Tracker (setup_config 400) \<and> LOW \<in> set [HIGH, HIGH, LOW]
   \<and> (\<exists>s'. Homeing [HIGH, HIGH, LOW] (setup_config 400) = Inr s' \<and> Steps s' = 0
        \<and> \<not> Home_Tracker s' \<and> \<not> Run_Tracker s'
        \<and> moves (drop (length (trace (setup_config 400))) (trace s')) = [1, 1])"
  using homeing_completes [of "setup_config 400" "[HIGH, HIGH, LOW]"]
  by (auto simp: setup_config_flags home_steps_def)

section \<open>Tracking\<close>

lemma Tracking_run:
  assumes "Run_Tracker s" "Steps s < LONG_MAX"
  shows "Tracking s = Inr (if Step_Limit s < Steps s + 1
     then s\<lparr>Run_Tracker := False, Steps := Steps s + 1,
       pin_out := (pin_out s)(Stepper_Speed := HIGH, Stepper_Enable := HIGH, Status_Led_Pin := LOW),
       trace := trace s @ [Stepper_move (- 1), Delay_us (Delay_1 s), Delay_us (Delay_2 s),
         Serial_println ''Tracking Stopped'', Serial_print ''Actual step position: '',
         Serial_println_num (Steps s + 1)]\<rparr>
     else s\<lparr>Steps := Steps s + 1, pin_out := (pin_out s)(Stepper_Speed := HIGH),
       trace := trace s @ [Stepper_move (- 1), Delay_us (Delay_1 s), Delay_us (Delay_2 s)]\<rparr>)"
  using assms by (simp add: Tracking_def limit_stop_def prim_defs Let_def)

lemma Tracking_idle: "\<not> Run_Tracker s \<Longrightarrow> Tracking s = Inr s"
  by (simp add: Tracking_def)

lemma Tracking_overflow: "Run_Tracker s \<Longrightarrow> Steps s = LONG_MAX \<Longrightarrow> Tracking s = Inl Signed_Overflow"
  by (simp add: Tracking_def prim_defs Let_def)

lemma Tracking_frame:
  assumes "Tracking s = Inr s'"
  shows "Home_Tracker s' = Home_Tracker s" "Step_Limit s' = Step_Limit s"
    "Steps s' = (if Run_Tracker s then Steps s + 1 else Steps s)"
    "Run_Tracker s' \<longrightarrow> Run_Tracker s \<and> Steps s' \<le> Step_Limit s'"
  using assms
  by (auto simp: Tracking_def limit_stop_def prim_defs Let_def split: if_splits)

lemma Tracking_moves:
  assumes "Tracking s = Inr s'"
  shows "moves (drop (length (trace s)) (trace s')) = (if Run_Tracker s then [- 1] else [])"
proof (cases "Run_Tracker s")
  case False
  with assms show ?thesis by (simp add: Tracking_idle)
next
  case True
  with assms have "Steps s \<noteq> LONG_MAX" by (auto simp: Tracking_overflow)
  moreover from assms True have "Steps s \<le> LONG_MAX \<or> Steps s > LONG_MAX" by arith
  ultimately show ?thesis using assms True
    by (auto simp: Tracking_def limit_stop_def prim_defs Let_def split: if_splits)
qed

text \<open>
  Claim C1.  A call of \<^verbatim>\<open>Tracking\<close> that takes \<^verbatim>\<open>Steps\<close> above \<^verbatim>\<open>Step_Limit\<close> clears
  \<^verbatim>\<open>Run_Tracker\<close> in the same call, after the two delays of one step interval, disables
  the motor and prints the stop with the final position; the position is kept, not
  reset.
\<close>

theorem tracking_limit_stop:
  assumes "Run_Tracker s" and "Steps s < LONG_MAX" and "Step_Limit s < Steps s + 1"
  shows "\<exists>s'. Tracking s = Inr s'
     \<and> \<not> Run_Tracker s' \<and> Home_Tracker s' = Home_Tracker s
     \<and> pin_out s' Stepper_Enable = HIGH
     \<and> Steps s' = Steps s + 1
     \<and> Step_Limit s' < Steps s'
     \<and> trace s' = trace s @ [Stepper_move (- 1), Delay_us (Delay_1 s), Delay_us (Delay_2 s),
          Serial_println ''Tracking Stopped'', Serial_print ''Actual step position: '',
          Serial_println_num (Steps s')]"
  using assms by (simp add: Tracking_run Stepper_Enable_def Status_Led_Pin_def)

text \<open>
  The step that leaves the limit of the reference configuration.
\<close>

theorem tracking_limit_stop_witness:
  "Run_Tracker ((setup_config 400)\<lparr>Run_Tracker := True, Steps := 460800\<rparr>)
   \<and> Steps ((setup_config 400)\<lparr>Run_Tracker := True, Steps := 460800\<rparr>) < LONG_MAX
   \<and> Step_Limit ((setup_config 400)\<lparr>Run_Tracker := True, Steps := 460800\<rparr>)
       < Steps ((setup_config 400)\<lparr>Run_Tracker := True, Steps := 460800\<rparr>) + 1
   \<and> (\<exists>s'. Tracking ((setup_config 400)\<lparr>Run_Tracker := True, Steps := 460800\<rparr>) = Inr s'
        \<and> \<not> Run_Tracker s' \<and> Steps s' = 460801 \<and> pin_out s' Stepper_Enable = HIGH)"
  using tracking_limit_stop [of "(setup_config 400)\<lparr>Run_Tracker := True, Steps := 460800\<rparr>"]
  by (auto simp: setup_config_400 LONG_MAX_def)

text \<open>
  Claim C9, as amended.  The direction is fixed per mode: every step of the homing loop
  is \<^verbatim>\<open>stepper.move(1)\<close>, the step of a tracking call is \<^verbatim>\<open>stepper.move(-1)\<close>; the two
  modes step in opposite directions.
\<close>

theorem step_direction_per_mode:
  "(Homeing hs s = Inr s' \<longrightarrow>
      moves (drop (length (trace s)) (trace s'))
        = (if Home_Tracker s then replicate (length (takeWhile (\<lambda>h. h = HIGH) hs)) 1 else []))
   \<and> (Tracking s = Inr s'' \<longrightarrow>
      moves (drop (length (trace s)) (trace s'')) = (if Run_Tracker s then [- 1] else []))"
  using Homeing_moves Tracking_moves by blast

theorem step_direction_per_mode_witness:
  "Homeing [HIGH, HIGH, LOW] ((setup_config 400)\<lparr>Run_Tracker := True\<rparr>)
     = Inr (projr (Homeing [HIGH, HIGH, LOW] ((setup_config 400)\<lparr>Run_Tracker := True\<rparr>)))
   \<and> moves (drop (length (trace ((setup_config 400)\<lparr>Run_Tracker := True\<rparr>)))
        (trace (projr (Homeing [HIGH, HIGH, LOW] ((setup_config 400)\<lparr>Run_Tracker := True\<rparr>)))))
       = [1, 1]
   \<and> Tracking ((setup_config 400)\<lparr>Run_Tracker := True\<rparr>)
     = Inr (projr (Tracking ((setup_config 400)\<lparr>Run_Tracker := True\<rparr>)))
   \<and> moves (drop (length (trace ((setup_config 400)\<lparr>Run_Tracker := True\<rparr>)))
        (trace (projr (Tracking ((setup_config 400)\<lparr>Run_Tracker := True\<rparr>)))))
       = [- 1]"
proof -
  let ?s = "(setup_config 400)\<lparr>Run_Tracker := True\<rparr>"
  have h: "Homeing [HIGH, HIGH, LOW] ?s = Inr (projr (Homeing [HIGH, HIGH, LOW] ?s))"
    by (simp add: Homeing_done setup_config_flags)
  have t: "Tracking ?s = Inr (projr (Tracking ?s))"
    by (simp add: Tracking_run setup_config_flags LONG_MAX_def)
  from step_direction_per_mode
    [of "[HIGH, HIGH, LOW]" ?s "projr (Homeing [HIGH, HIGH, LOW] ?s)" "projr (Tracking ?s)"] h t
  show ?thesis by (simp add: setup_config_flags)
qed

text \<open>
  A homing step and a tracking step: the arguments of \<^verbatim>\<open>stepper.move\<close> differ.
\<close>

theorem step_direction_counterexample:
  "Homeing [HIGH, LOW] (setup_config 400) = Inr (projr (Homeing [HIGH, LOW] (setup_config 400)))
   \<and> moves (drop (length (trace (setup_config 400)))
        (trace (projr (Homeing [HIGH, LOW] (setup_config 400))))) = [1]
   \<and> Tracking ((setup_config 400)\<lparr>Run_Tracker := True\<rparr>)
     = Inr (projr (Tracking ((setup_config 400)\<lparr>Run_Tracker := True\<rparr>)))
   \<and> moves (drop (length (trace ((setup_config 400)\<lparr>Run_Tracker := True\<rparr>)))
        (trace (projr (Tracking ((setup_config 400)\<lparr>Run_Tracker := True\<rparr>))))) = [- 1]
   \<and> (1::int) \<noteq> - 1"
  by (simp add: Homeing_done home_steps_def Tracking_run setup_config_flags LONG_MAX_def)

section \<open>The long press\<close>

text \<open>
  Only the handler advances \<^verbatim>\<open>Button_Timer\<close>, by one in a run and only when the sub-counter
  is above 9, after which the sub-counter restarts at 1; \<^verbatim>\<open>Button_Scan\<close> can only reset it,
  \<^verbatim>\<open>Homeing\<close> and \<^verbatim>\<open>Tracking\<close> leave it alone.  So from \<^verbatim>\<open>Button_Timer\<close> 0 the long-press
  check cannot hold before the handler has run 21 times, whatever the main program does
  and reads in between.
\<close>

lemma Timer_1_button:
  assumes "Timer_1 s = Inr s'"
  shows "Button_Timer s' = (if Button_Pressed s \<and> 9 < Button_Timer_temp s
                            then Button_Timer s + 1 else Button_Timer s)"
    and "Button_Timer_temp s' = (if Button_Pressed s
          then (if 9 < Button_Timer_temp s then 1 else Button_Timer_temp s + 1)
          else Button_Timer_temp s)"
  using assms by (auto simp: tick_defs prim_defs bind_f_eq_Inr split: if_splits)

lemma Timer_1_request:
  assumes "Timer_1 s = Inr s'" and "0 \<le> Button_Timer s" and "Button_Timer s \<le> 2"
    and "1 < ticks_to_request s"
  shows "0 \<le> Button_Timer s'" and "Button_Timer s' \<le> 2"
    and "ticks_to_request s - 1 \<le> ticks_to_request s'"
  using assms(2-) Timer_1_button [OF assms(1)]
  by (auto simp: ticks_to_request_def ticks_to_unit_def split: if_splits)

lemma Button_Scan_request:
  assumes "0 \<le> Button_Timer s" and "Button_Timer s \<le> 2"
  shows "\<not> 2 < Button_Timer (scan_release b2 (scan_press b1 s))"
    and "0 \<le> Button_Timer (Button_Scan b1 b2 s)" and "Button_Timer (Button_Scan b1 b2 s) \<le> 2"
    and "ticks_to_request s \<le> ticks_to_request (Button_Scan b1 b2 s)"
  using assms
  by (cases b1; cases b2; simp add: scan_defs prim_defs Let_def ticks_to_request_def)+

lemma Homeing_request:
  assumes "Homeing hs s = Inr s'"
  shows "Button_Timer s' = Button_Timer s" and "ticks_to_request s' = ticks_to_request s"
proof -
  have "Button_Timer s' = Button_Timer s \<and> Button_Timer_temp s' = Button_Timer_temp s"
  proof (cases "Home_Tracker s")
    case False
    with assms show ?thesis by (simp add: Homeing_idle)
  next
    case True
    have "LOW \<in> set hs"
    proof (rule ccontr)
      assume "LOW \<notin> set hs"
      with assms True show False by (simp add: Homeing_blocked)
    qed
    with assms True show ?thesis by (auto simp: Homeing_done)
  qed
  then show "Button_Timer s' = Button_Timer s" and "ticks_to_request s' = ticks_to_request s"
    by (simp_all add: ticks_to_request_def)
qed

lemma Tracking_request:
  assumes "Tracking s = Inr s'"
  shows "Button_Timer s' = Button_Timer s" and "ticks_to_request s' = ticks_to_request s"
  using assms
  by (auto simp: Tracking_def limit_stop_def prim_defs Let_def ticks_to_request_def
      split: if_splits)

lemma no_request_within:
  assumes "0 \<le> Button_Timer s" and "Button_Timer s \<le> 2"
    and "int (count_list es Timer_tick) < ticks_to_request s"
  shows "home_requests es (p, s) = 0"
  using assms
proof (induction es arbitrary: p s)
  case Nil
  show ?case by simp
next
  case (Cons e es)
  show ?case
  proof (cases "step e (p, s)")
    case (Inl f)
    then show ?thesis by simp
  next
    case (Inr c')
    obtain p' s' where c': "c' = (p', s')" by (cases c')
    have "\<not> hold_fires e (p, s) \<and> 0 \<le> Button_Timer s' \<and> Button_Timer s' \<le> 2
      \<and> int (count_list es Timer_tick) < ticks_to_request s'"
    proof (cases e)
      case Timer_tick
      with Inr c' have t: "Timer_1 s = Inr s'" by (auto simp: bind_f_eq_Inr)
      from Cons.prems(3) Timer_tick
      have n: "int (count_list es Timer_tick) + 1 < ticks_to_request s" by simp
      then have "1 < ticks_to_request s" by linarith
      from Timer_1_request [OF t Cons.prems(1,2) this] n Timer_tick show ?thesis by simp
    next
      case (Main_call b1 b2 hs)
      with Cons.prems(3) have n: "int (count_list es Timer_tick) < ticks_to_request s" by simp
      show ?thesis
      proof (cases p)
        case At_Button_Scan
        with Inr c' Main_call have "s' = Button_Scan b1 b2 s" by simp
        with Button_Scan_request [OF Cons.prems(1,2), where ?b1.0 = b1 and ?b2.0 = b2] n Main_call At_Button_Scan
        show ?thesis by simp
      next
        case At_Homeing
        with Inr c' Main_call have "Homeing hs s = Inr s'" by (auto simp: bind_f_eq_Inr)
        from Homeing_request [OF this] Cons.prems(1,2) n Main_call At_Homeing
        show ?thesis by simp
      next
        case At_Tracking
        with Inr c' Main_call have "Tracking s = Inr s'" by (auto simp: bind_f_eq_Inr)
        from Tracking_request [OF this] Cons.prems(1,2) n Main_call At_Tracking
        show ?thesis by simp
      qed
    qed
    with Cons.IH [of s' p'] Inr c' show ?thesis by simp
  qed
qed

lemma ticks_to_request_after:
  "Button_Timer s = 0 \<Longrightarrow> 20 < ticks_to_request s"
  by (simp add: ticks_to_request_def ticks_to_unit_def)

text \<open>
  Claim C6, as amended.  A \<^verbatim>\<open>Button_Scan\<close> that is entered with a latched press and
  \<^verbatim>\<open>Button_Timer\<close> above 2 requests homing in that call, whatever the button reads: it
  clears \<^verbatim>\<open>Run_Tracker\<close>, sets \<^verbatim>\<open>Home_Tracker\<close>, clears the latch and resets
  \<^verbatim>\<open>Button_Timer\<close> to 0.  In whatever the sketch does next, with any readings of the button
  and the home switch, homing is not requested again as long as the handler has run at most
  20 times (two seconds) since that call: the request is made exactly once.  A button that
  stays down longer is latched anew, and the request can be made again from the 21st run of
  the handler on.
\<close>

theorem hold_requests_home:
  assumes "Button_Pressed s" and "2 < Button_Timer s" and "count_list es Timer_tick \<le> 20"
  shows "hold_fires (Main_call b1 b2 hs) (At_Button_Scan, s)
     \<and> \<not> Run_Tracker (Button_Scan b1 b2 s) \<and> Home_Tracker (Button_Scan b1 b2 s)
     \<and> \<not> Button_Pressed (Button_Scan b1 b2 s) \<and> Button_Timer (Button_Scan b1 b2 s) = 0
     \<and> home_requests es (At_Homeing, Button_Scan b1 b2 s) = 0
     \<and> home_requests (Main_call b1 b2 hs # es) (At_Button_Scan, s) = 1"
proof -
  have f: "hold_fires (Main_call b1 b2 hs) (At_Button_Scan, s)"
    and g: "\<not> Run_Tracker (Button_Scan b1 b2 s)" "Home_Tracker (Button_Scan b1 b2 s)"
      "\<not> Button_Pressed (Button_Scan b1 b2 s)" "Button_Timer (Button_Scan b1 b2 s) = 0"
    using assms(1,2) by (cases b1; cases b2; simp add: scan_defs prim_defs Let_def)+
  have "int (count_list es Timer_tick) < ticks_to_request (Button_Scan b1 b2 s)"
    using ticks_to_request_after [OF g(4)] assms(3) by linarith
  then have n: "home_requests es (At_Homeing, Button_Scan b1 b2 s) = 0"
    using g(4) by (intro no_request_within) simp_all
  with f g show ?thesis by simp
qed

text \<open>
  The button stays down for another 500 ms after the request: one request.
\<close>

theorem hold_requests_home_witness:
  "Button_Pressed ((setup_config 400)\<lparr>Button_Pressed := True, Button_Timer := 3\<rparr>)
   \<and> 2 < Button_Timer ((setup_config 400)\<lparr>Button_Pressed := True, Button_Timer := 3\<rparr>)
   \<and> count_list (replicate 5 (Main_call LOW LOW [LOW]) @ replicate 5 Timer_tick
        @ replicate 3 (Main_call LOW LOW [LOW])) Timer_tick \<le> 20
   \<and> Home_Tracker (Button_Scan LOW LOW ((setup_config 400)\<lparr>Button_Pressed := True, Button_Timer := 3\<rparr>))
   \<and> Button_Timer (Button_Scan LOW LOW ((setup_config 400)\<lparr>Button_Pressed := True, Button_Timer := 3\<rparr>)) = 0
   \<and> home_requests (Main_call LOW LOW [LOW] # replicate 5 (Main_call LOW LOW [LOW])
        @ replicate 5 Timer_tick @ replicate 3 (Main_call LOW LOW [LOW]))
        (At_Button_Scan, (setup_config 400)\<lparr>Button_Pressed := True, Button_Timer := 3\<rparr>) = 1"
proof -
  have c: "count_list (replicate 5 (Main_call LOW LOW [LOW]) @ replicate 5 Timer_tick
        @ replicate 3 (Main_call LOW LOW [LOW])) Timer_tick \<le> 20"
    by (simp add: eval_nat_numeral)
  have p: "Button_Pressed ((setup_config 400)\<lparr>Button_Pressed := True, Button_Timer := 3\<rparr>)"
    "2 < Button_Timer ((setup_config 400)\<lparr>Button_Pressed := True, Button_Timer := 3\<rparr>)"
    by simp_all
  from hold_requests_home [OF p c, of LOW LOW "[LOW]"] p c show ?thesis by simp
qed

text \<open>
  The bound is met: with the sub-counter at 10 when the press is latched anew, the second
  request comes with the 21st run of the handler.
\<close>

lemma second_request_after_21_ticks:
  "home_requests
     (replicate 6 (Main_call LOW LOW [LOW]) @ replicate 21 Timer_tick
      @ [Main_call LOW LOW [LOW]])
     (At_Button_Scan, (setup_config 400)\<lparr>Home_Tracker := False, Button_Pressed := True,
        Button_Timer := 3, Button_Timer_temp := 10\<rparr>) = 2"
  by (simp add: setup_defs run_defs)

text \<open>
  The button is down at every read of the run, and homing is requested twice.
\<close>

theorem hold_requests_home_counterexample:
  "list_all button_held
     (replicate 3 (Main_call LOW LOW [LOW]) @ replicate 31 Timer_tick
      @ replicate 6 (Main_call LOW LOW [LOW]) @ replicate 30 Timer_tick
      @ replicate 3 (Main_call LOW LOW [LOW]))
   \<and> home_requests
     (replicate 3 (Main_call LOW LOW [LOW]) @ replicate 31 Timer_tick
      @ replicate 6 (Main_call LOW LOW [LOW]) @ replicate 30 Timer_tick
      @ replicate 3 (Main_call LOW LOW [LOW]))
     (At_Button_Scan, setup_debug (digitalRead Button_Pin HIGH (setup_config 400))) = 2"
  by (simp add: setup_defs run_defs)

section \<open>Reachable configurations\<close>

text \<open>
  The invariant \<open>flags_inv\<close> holds after \<^verbatim>\<open>setup()\<close> and is kept by every call and by the
  handler, which writes none of the variables it speaks of.
\<close>

lemma flags_inv_setup:
  assumes "setup_main ms b0 bs hs = Inr s"
  shows "flags_inv (At_Button_Scan, s)"
  using vars_of_fields [OF setup_main_frame [OF assms]]
  by (simp add: flags_inv_def setup_config_flags)

lemma flags_inv_step:
  assumes "flags_inv c" and "step e c = Inr c'"
  shows "flags_inv c'"
proof (cases c)
  case (Pair p s)
  show ?thesis
  proof (cases e)
    case Timer_tick
    with assms Pair obtain s' where "Timer_1 s = Inr s'" "c' = (p, s')"
      by (auto simp: bind_f_eq_Inr)
    with assms(1) Pair show ?thesis
      by (auto simp: flags_inv_def Timer_1_frame)
  next
    case (Main_call b1 b2 hs)
    show ?thesis
    proof (cases p)
      case At_Button_Scan
      with assms Pair Main_call show ?thesis
        using Button_Scan_frame [of b1 b2 s] by (auto simp: flags_inv_def)
    next
      case At_Homeing
      with assms Pair Main_call obtain s' where h: "Homeing hs s = Inr s'" "c' = (At_Tracking, s')"
        by (auto simp: bind_f_eq_Inr)
      with assms(1) Pair At_Homeing Homeing_frame [OF h(1)] show ?thesis
        by (auto simp: flags_inv_def)
    next
      case At_Tracking
      with assms Pair Main_call obtain s' where h: "Tracking s = Inr s'" "c' = (At_Button_Scan, s')"
        by (auto simp: bind_f_eq_Inr)
      with assms(1) Pair At_Tracking Tracking_frame [OF h(1)] show ?thesis
        by (auto simp: flags_inv_def)
    qed
  qed
qed

lemma reachable_flags_inv: "reachable ms c \<Longrightarrow> flags_inv c"
  by (induction rule: reachable.induct) (auto intro: flags_inv_setup flags_inv_step)

lemma step_monotone:
  assumes "flags_inv (p, s)" and "Run_Tracker s" and "step e (p, s) = Inr (p', s')"
  shows "Steps s \<le> Steps s'"
proof (cases e)
  case Timer_tick
  with assms show ?thesis by (auto simp: bind_f_eq_Inr Timer_1_frame)
next
  case (Main_call b1 b2 hs)
  show ?thesis
  proof (cases p)
    case At_Button_Scan
    with assms Main_call show ?thesis by (auto simp: Button_Scan_frame)
  next
    case At_Homeing
    with assms Main_call obtain h: "Homeing hs s = Inr s'" by (auto simp: bind_f_eq_Inr)
    with assms At_Homeing Homeing_frame [OF h] show ?thesis by (auto simp: flags_inv_def)
  next
    case At_Tracking
    with assms Main_call obtain h: "Tracking s = Inr s'" by (auto simp: bind_f_eq_Inr)
    with assms Tracking_frame [OF h] show ?thesis by auto
  qed
qed

lemma reachable_exec:
  "reachable ms c \<Longrightarrow> exec es c = Inr c' \<Longrightarrow> reachable ms c'"
  by (induction es arbitrary: c) (auto simp: bind_f_eq_Inr intro: reachable_step)

lemma reachable_run:
  "setup_main ms b0 bs hs = Inr s \<Longrightarrow> exec es (At_Button_Scan, s) = Inr c \<Longrightarrow> reachable ms c"
  by (blast intro: reachable_exec reachable_setup)

text \<open>
  Claim C2.  In every configuration reachable at the head of \<^verbatim>\<open>loop()\<close>, if
  \<^verbatim>\<open>Run_Tracker\<close> is set then \<^verbatim>\<open>0 \<le> Steps \<le> Step_Limit\<close>; and no step taken from a
  reachable configuration with \<^verbatim>\<open>Run_Tracker\<close> set decreases \<^verbatim>\<open>Steps\<close>: \<^verbatim>\<open>Tracking\<close>
  increments it.
\<close>

theorem tracking_position_invariant:
  assumes "reachable MOTOR_STEPS (p, s)"
  shows "(p = At_Button_Scan \<and> Run_Tracker s \<longrightarrow> 0 \<le> Steps s \<and> Steps s \<le> Step_Limit s)
     \<and> (\<forall>e p' s'. Run_Tracker s \<and> step e (p, s) = Inr (p', s') \<longrightarrow> Steps s \<le> Steps s')
     \<and> (\<forall>s'. Run_Tracker s \<and> Tracking s = Inr s' \<longrightarrow> Steps s' = Steps s + 1)"
  using reachable_flags_inv [OF assms] step_monotone [of p s]
  by (auto simp: flags_inv_def dest: Tracking_frame)

text \<open>
  After homing and a tap the tracker is at step 1 of 460800.
\<close>

theorem tracking_position_invariant_witness:
  "reachable 400
     (At_Button_Scan,
      snd (projr (exec (replicate 3 (Main_call HIGH HIGH [LOW]) @ replicate 3 (Main_call LOW HIGH []))
        (At_Button_Scan, setup_debug (digitalRead Button_Pin HIGH (setup_config 400))))))
   \<and> Run_Tracker (snd (projr (exec (replicate 3 (Main_call HIGH HIGH [LOW]) @ replicate 3 (Main_call LOW HIGH []))
        (At_Button_Scan, setup_debug (digitalRead Button_Pin HIGH (setup_config 400))))))
   \<and> Steps (snd (projr (exec (replicate 3 (Main_call HIGH HIGH [LOW]) @ replicate 3 (Main_call LOW HIGH []))
        (At_Button_Scan, setup_debug (digitalRead Button_Pin HIGH (setup_config 400)))))) = 1
   \<and> Step_Limit (snd (projr (exec (replicate 3 (Main_call HIGH HIGH [LOW]) @ replicate 3 (Main_call LOW HIGH []))
        (At_Button_Scan, setup_debug (digitalRead Button_Pin HIGH (setup_config 400)))))) = 460800"
proof -
  let ?c0 = "(At_Button_Scan, setup_debug (digitalRead Button_Pin HIGH (setup_config 400)))"
  let ?es = "replicate 3 (Main_call HIGH HIGH [LOW]) @ replicate 3 (Main_call LOW HIGH [])"
  have e: "exec ?es ?c0 = Inr (At_Button_Scan, snd (projr (exec ?es ?c0)))"
    and f: "Run_Tracker (snd (projr (exec ?es ?c0)))"
      "Steps (snd (projr (exec ?es ?c0))) = 1"
      "Step_Limit (snd (projr (exec ?es ?c0))) = 460800"
    by (simp_all add: setup_defs run_defs Threaded_UpperRod_Length_def)
  have r: "reachable 400 (At_Button_Scan, snd (projr (exec ?es ?c0)))"
    by (rule reachable_run [OF setup_main_not_pressed e])
  from tracking_position_invariant [OF r] f r show ?thesis by simp
qed

lemma iteration_idle:
  assumes "\<not> Button_Pressed s" and "Button_Timer s \<le> 2" and "\<not> Home_Tracker s"
    and "Run_Tracker s" and "Steps s < LONG_MAX"
  shows "\<exists>s'. exec (replicate 3 (Main_call HIGH HIGH [])) (At_Button_Scan, s) = Inr (At_Button_Scan, s')
     \<and> Steps s' = Steps s + 1 \<and> Run_Tracker s' = (Steps s + 1 \<le> Step_Limit s)
     \<and> Step_Limit s' = Step_Limit s \<and> \<not> Home_Tracker s' \<and> \<not> Button_Pressed s'
     \<and> Button_Timer s' = Button_Timer s"
  using assms by (simp add: replicate_3 scan_idle Homeing_idle Tracking_run)

lemma iteration_tap:
  assumes "\<not> Button_Pressed s" and "\<not> Home_Tracker s" and "\<not> Run_Tracker s"
    and "Steps s < LONG_MAX"
  shows "\<exists>s'. exec (replicate 3 (Main_call LOW HIGH [])) (At_Button_Scan, s) = Inr (At_Button_Scan, s')
     \<and> Steps s' = Steps s + 1 \<and> Run_Tracker s' = (Steps s + 1 \<le> Step_Limit s)
     \<and> Step_Limit s' = Step_Limit s \<and> \<not> Home_Tracker s' \<and> \<not> Button_Pressed s'
     \<and> Button_Timer s' = 0
     \<and> (Step_Limit s < Steps s + 1 \<longrightarrow> last (trace s') = Serial_println_num (Steps s + 1))"
  using assms by (simp add: replicate_3 scan_tap Homeing_idle Tracking_run)

lemma iterations_idle:
  assumes "\<not> Button_Pressed s" and "Button_Timer s \<le> 2" and "\<not> Home_Tracker s"
    and "Run_Tracker s" and "Steps s + int n \<le> Step_Limit s" and "Step_Limit s < LONG_MAX"
  shows "\<exists>s'. exec (replicate (3 * n) (Main_call HIGH HIGH [])) (At_Button_Scan, s)
        = Inr (At_Button_Scan, s')
     \<and> Steps s' = Steps s + int n \<and> Run_Tracker s'
     \<and> Step_Limit s' = Step_Limit s \<and> \<not> Home_Tracker s' \<and> \<not> Button_Pressed s'
     \<and> Button_Timer s' = Button_Timer s"
  using assms
proof (induction n arbitrary: s)
  case 0
  then show ?case by simp
next
  case (Suc n)
  from Suc.prems have "Steps s < LONG_MAX" by simp
  from iteration_idle [OF Suc.prems(1-4) this] obtain s1 where
    1: "exec (replicate 3 (Main_call HIGH HIGH [])) (At_Button_Scan, s) = Inr (At_Button_Scan, s1)"
    and s1: "Steps s1 = Steps s + 1" "Run_Tracker s1 = (Steps s + 1 \<le> Step_Limit s)"
      "Step_Limit s1 = Step_Limit s" "\<not> Home_Tracker s1" "\<not> Button_Pressed s1"
      "Button_Timer s1 = Button_Timer s"
    by blast
  have p: "\<not> Button_Pressed s1" "Button_Timer s1 \<le> 2" "\<not> Home_Tracker s1" "Run_Tracker s1"
    "Steps s1 + int n \<le> Step_Limit s1" "Step_Limit s1 < LONG_MAX"
    using s1 Suc.prems by simp_all
  from Suc.IH [OF p] obtain s' where
    2: "exec (replicate (3 * n) (Main_call HIGH HIGH [])) (At_Button_Scan, s1) = Inr (At_Button_Scan, s')"
    and s': "Steps s' = Steps s1 + int n" "Run_Tracker s'" "Step_Limit s' = Step_Limit s1"
      "\<not> Home_Tracker s'" "\<not> Button_Pressed s'" "Button_Timer s' = Button_Timer s1"
    by blast
  have "replicate (3 * Suc n) (Main_call HIGH HIGH [])
      = replicate 3 (Main_call HIGH HIGH []) @ replicate (3 * n) (Main_call HIGH HIGH [])"
    by (simp add: replicate_add [symmetric])
  then have "exec (replicate (3 * Suc n) (Main_call HIGH HIGH [])) (At_Button_Scan, s)
      = Inr (At_Button_Scan, s')"
    using 1 2 by (simp add: exec_append)
  with s1 s' show ?case by simp
qed

text \<open>
  Claim C10, as amended.  A call of \<^verbatim>\<open>Tracking\<close> that is entered with \<^verbatim>\<open>Run_Tracker\<close>
  set and \<^verbatim>\<open>Steps\<close> at most \<^verbatim>\<open>Step_Limit\<close> adds one step and leaves \<^verbatim>\<open>Steps\<close> at most
  \<^verbatim>\<open>Step_Limit + 1\<close>; it stops tracking exactly when \<^verbatim>\<open>Steps\<close> is \<^verbatim>\<open>Step_Limit + 1\<close>.
\<close>

theorem tracking_overshoot:
  assumes "Run_Tracker s" and "Steps s \<le> Step_Limit s" and "Steps s < LONG_MAX"
  shows "\<exists>s'. Tracking s = Inr s' \<and> Steps s' = Steps s + 1 \<and> Step_Limit s' = Step_Limit s
     \<and> Steps s' \<le> Step_Limit s' + 1
     \<and> (Run_Tracker s' \<longleftrightarrow> Steps s' \<le> Step_Limit s')
     \<and> (\<not> Run_Tracker s' \<longrightarrow> Steps s' = Step_Limit s' + 1)"
  using assms by (simp add: Tracking_run)

theorem tracking_overshoot_witness:
  "Run_Tracker ((setup_config 400)\<lparr>Run_Tracker := True, Steps := 460800\<rparr>)
   \<and> Steps ((setup_config 400)\<lparr>Run_Tracker := True, Steps := 460800\<rparr>)
        \<le> Step_Limit ((setup_config 400)\<lparr>Run_Tracker := True, Steps := 460800\<rparr>)
   \<and> (\<exists>s'. Tracking ((setup_config 400)\<lparr>Run_Tracker := True, Steps := 460800\<rparr>) = Inr s'
        \<and> \<not> Run_Tracker s' \<and> Steps s' = 460801)"
  using tracking_overshoot [of "(setup_config 400)\<lparr>Run_Tracker := True, Steps := 460800\<rparr>"]
  by (auto simp: setup_config_400 LONG_MAX_def)

text \<open>
  Tracking can be started again after a limit stop, and each start adds a step.
\<close>

lemma overshoot_run:
  assumes n: "int n = 460799"
  shows "case exec (replicate 3 (Main_call HIGH HIGH [LOW]) @ replicate 3 (Main_call LOW HIGH [])
                  @ replicate (3 * n) (Main_call HIGH HIGH [])
                  @ replicate 3 (Main_call HIGH HIGH [])
                  @ replicate 3 (Main_call LOW HIGH []))
             (At_Button_Scan, setup_debug (digitalRead Button_Pin HIGH (setup_config 400))) of
         Inl f \<Rightarrow> False
       | Inr (p, s) \<Rightarrow> p = At_Button_Scan \<and> \<not> Run_Tracker s \<and> Step_Limit s = 460800
           \<and> Steps s = Step_Limit s + 2
           \<and> last (trace s) = Serial_println_num (Step_Limit s + 2)"
proof -
  let ?c0 = "(At_Button_Scan, setup_debug (digitalRead Button_Pin HIGH (setup_config 400)))"
  let ?e1 = "replicate 3 (Main_call HIGH HIGH [LOW]) @ replicate 3 (Main_call LOW HIGH [])"
  have e: "exec ?e1 ?c0 = Inr (At_Button_Scan, snd (projr (exec ?e1 ?c0)))"
    and f: "\<not> Button_Pressed (snd (projr (exec ?e1 ?c0)))"
      "Button_Timer (snd (projr (exec ?e1 ?c0))) \<le> 2"
      "\<not> Home_Tracker (snd (projr (exec ?e1 ?c0)))"
      "Run_Tracker (snd (projr (exec ?e1 ?c0)))"
    and g: "Steps (snd (projr (exec ?e1 ?c0))) = 1"
      "Step_Limit (snd (projr (exec ?e1 ?c0))) = 460800"
    by (simp_all add: setup_defs run_defs Threaded_UpperRod_Length_def)
  have h: "Steps (snd (projr (exec ?e1 ?c0))) + int n \<le> Step_Limit (snd (projr (exec ?e1 ?c0)))"
    "Step_Limit (snd (projr (exec ?e1 ?c0))) < LONG_MAX"
    unfolding g n by (simp_all add: LONG_MAX_def)
  from iterations_idle [OF f h] obtain s2 where
    2: "exec (replicate (3 * n) (Main_call HIGH HIGH [])) (At_Button_Scan, snd (projr (exec ?e1 ?c0)))
        = Inr (At_Button_Scan, s2)"
    and s2: "Steps s2 = Steps (snd (projr (exec ?e1 ?c0))) + int n" "Run_Tracker s2"
      "Step_Limit s2 = Step_Limit (snd (projr (exec ?e1 ?c0)))" "\<not> Home_Tracker s2"
      "\<not> Button_Pressed s2" "Button_Timer s2 = Button_Timer (snd (projr (exec ?e1 ?c0)))"
    by blast
  have s2': "Steps s2 = 460800" "Step_Limit s2 = 460800" "Button_Timer s2 \<le> 2"
    using s2(1,3,6) f(2) unfolding g n by simp_all
  have "Steps s2 < LONG_MAX" unfolding s2' by (simp add: LONG_MAX_def)
  from iteration_idle [OF s2(5) s2'(3) s2(4) s2(2) this] obtain s3 where
    3: "exec (replicate 3 (Main_call HIGH HIGH [])) (At_Button_Scan, s2) = Inr (At_Button_Scan, s3)"
    and s3: "Steps s3 = 460801" "\<not> Run_Tracker s3" "Step_Limit s3 = 460800" "\<not> Home_Tracker s3"
      "\<not> Button_Pressed s3"
    unfolding s2' by auto
  have "Steps s3 < LONG_MAX" unfolding s3 by (simp add: LONG_MAX_def)
  from iteration_tap [OF s3(5) s3(4) s3(2) this] obtain s4 where
    4: "exec (replicate 3 (Main_call LOW HIGH [])) (At_Button_Scan, s3) = Inr (At_Button_Scan, s4)"
    and s4: "Steps s4 = 460802" "\<not> Run_Tracker s4" "Step_Limit s4 = 460800"
      "last (trace s4) = Serial_println_num 460802"
    unfolding s3 by auto
  have "exec (?e1 @ replicate (3 * n) (Main_call HIGH HIGH [])
                  @ replicate 3 (Main_call HIGH HIGH [])
                  @ replicate 3 (Main_call LOW HIGH [])) ?c0 = Inr (At_Button_Scan, s4)"
    by (simp only: exec_append_Inr [OF e] exec_append_Inr [OF 2] exec_append_Inr [OF 3] 4)
  then have "exec (replicate 3 (Main_call HIGH HIGH [LOW]) @ replicate 3 (Main_call LOW HIGH [])
                  @ replicate (3 * n) (Main_call HIGH HIGH [])
                  @ replicate 3 (Main_call HIGH HIGH [])
                  @ replicate 3 (Main_call LOW HIGH [])) ?c0 = Inr (At_Button_Scan, s4)"
    by (simp only: append_assoc)
  then show ?thesis using s4 by (simp only: sum.case prod.case) simp
qed

text \<open>
  Homing, a tap, 460800 passes of \<^verbatim>\<open>loop()\<close> up to the limit stop at 460801, and a
  second tap: the tracker stops again, at \<^verbatim>\<open>Step_Limit + 2\<close>.
\<close>

theorem tracking_overshoot_counterexample:
  "case exec (replicate 3 (Main_call HIGH HIGH [LOW]) @ replicate 3 (Main_call LOW HIGH [])
                  @ replicate (3 * 460799) (Main_call HIGH HIGH [])
                  @ replicate 3 (Main_call HIGH HIGH [])
                  @ replicate 3 (Main_call LOW HIGH []))
             (At_Button_Scan, setup_debug (digitalRead Button_Pin HIGH (setup_config 400))) of
         Inl f \<Rightarrow> False
       | Inr (p, s) \<Rightarrow> p = At_Button_Scan \<and> \<not> Run_Tracker s \<and> Step_Limit s = 460800
           \<and> Steps s = Step_Limit s + 2
           \<and> last (trace s) = Serial_println_num (Step_Limit s + 2)"
  by (rule overshoot_run) simp

end
